theory Spec2Isabelle
  imports Main
begin

section \<open>Data model (main/models.py)\<close>

text \<open>
  Primary keys are integers. Points in time (Django \<open>DateTimeField\<close>) are integers on a
  linear time axis. The content of a message is a Python \<open>str\<close> that the code trims:
  it is the list of its Unicode code points. Names and notice texts are HOL strings.

  The tables \<open>User\<close>, \<open>Skill\<close> and \<open>Exchange\<close> are read by primary key only: each is a
  map from the primary key to the other columns of the row. The tables \<open>UserSkill\<close> and
  \<open>Message\<close> are walked by queries: each is the list of its rows, in the order in which
  the database returns them to a query with no ordering. A foreign key column holds the
  primary key of the row it refers to.
\<close>

type_synonym pk = int
type_synonym datetime = int
type_synonym pystr = "nat list"

text \<open>
  \<open>auth.User\<close> with the columns the handlers read. \<open>up_full_name\<close> is
  \<open>user.userprofile.full_name\<close>: \<open>None\<close> when the user has no \<open>UserProfile\<close> row
  (\<open>hasattr(user, "userprofile")\<close> is false).
\<close>

record User =
  username :: string
  is_active :: bool
  is_staff :: bool
  is_superuser :: bool
  date_joined :: datetime
  up_full_name :: "string option"

record Skill =
  skill_name :: string
  skill_category :: "pk option"

datatype role = Offer | Seek

datatype proficiency = Beginner | Intermediate | Advanced | Expert

record UserSkill =
  us_id :: pk
  us_user :: pk
  us_skill :: pk
  us_role :: role
  us_proficiency :: proficiency
  us_experience_years :: nat

datatype status = Pending | Active | Completed | Dispute | Cancelled

record Exchange =
  user1 :: pk
  user2 :: pk
  skill1 :: "pk option"
  skill2 :: "pk option"
  status :: status
  start_date :: datetime
  end_date :: "datetime option"
  ex_notes :: string
  last_updated :: datetime
  user1_completed :: bool
  user2_completed :: bool
  user1_completed_date :: "datetime option"
  user2_completed_date :: "datetime option"
  admin_approved :: bool
  admin_approved_date :: "datetime option"
  admin_notes :: string

record Message =
  sender :: pk
  receiver :: pk
  content :: pystr
  timestamp :: datetime
  is_read :: bool

text \<open>The stored state.\<close>

record db =
  users :: "pk \<rightharpoonup> User"
  skills :: "pk \<rightharpoonup> Skill"
  user_skills :: "UserSkill list"
  exchanges :: "pk \<rightharpoonup> Exchange"
  messages :: "Message list"

subsection \<open>Methods of \<open>Exchange\<close>\<close>

definition both_users_completed :: "Exchange \<Rightarrow> bool" where
  "both_users_completed e \<longleftrightarrow> user1_completed e \<and> user2_completed e"

definition completion_status :: "Exchange \<Rightarrow> string" where
  "completion_status e =
     (if admin_approved e then ''Admin Approved''
      else if both_users_completed e then ''Awaiting Admin Approval''
      else if user1_completed e \<or> user2_completed e then ''Partially Complete''
      else ''In Progress'')"

text \<open>
  The derivation as the specification words it: a function of the triple
  (admin_approved, user1_completed, user2_completed) with the precedence
  admin approved, awaiting admin approval (both flags), partially complete
  (exactly one flag), in progress.
\<close>

definition spec_completion_status :: "bool \<times> bool \<times> bool \<Rightarrow> string" where
  "spec_completion_status t =
     (case t of (approved, c1, c2) \<Rightarrow>
        if approved then ''Admin Approved''
        else if c1 \<and> c2 then ''Awaiting Admin Approval''
        else if c1 \<noteq> c2 then ''Partially Complete''
        else ''In Progress'')"

section \<open>Requests, responses and the store (main/views.py, main/admin.py)\<close>

text \<open>
  The database enforces the foreign keys, so reading a non-null foreign key of a row
  never fails. A handler takes the stored state and the request and returns the response,
  the notices it queued with \<open>django.contrib.messages\<close> and the stored state it leaves.
  An exception that leaves the handler is a response as well: \<open>Http404\<close> for
  \<open>get_object_or_404\<close>, \<open>Http405\<close> for \<open>require_POST\<close>, \<open>Http500\<close> for any other
  exception. The database runs in autocommit mode (Django's default), so a row saved
  before an exception stays saved.

  The text of a notice is the handler's format string as written; the values a format
  string interpolates are not computed. All clock reads of one request return the same
  instant \<open>now\<close>.
\<close>

datatype http_method = GET | POST

text \<open>
  A form field holding a primary key, as the ORM coerces it: absent or empty (falsy),
  text that \<open>int()\<close> rejects (the query raises \<open>ValueError\<close>), or an integer.
\<close>

datatype pk_input = NoInput | BadInput | PkInput pk

record request =
  req_user :: "pk option"
  req_method :: http_method
  post_content :: "pystr option"
  post_my_skill :: pk_input
  post_notes :: "string option"

datatype response = Redirect string "pk list" | Render string | Http404 | Http405 | Http500

datatype level = Info | Success | Error

type_synonym notice = "level \<times> string"

record result =
  resp :: response
  notices :: "notice list"
  store :: db

text \<open>
  \<open>request.user\<close>: the primary key and the row of the session's user; \<open>None\<close> is the
  anonymous user.
\<close>

definition request_user :: "db \<Rightarrow> request \<Rightarrow> (pk \<times> User) option" where
  "request_user d req =
     (case req_user req of
        None \<Rightarrow> None
      | Some uid \<Rightarrow> (case users d uid of None \<Rightarrow> None | Some u \<Rightarrow> Some (uid, u)))"

text \<open>The decorators: what they answer when they refuse the request.\<close>

definition login_redirect :: "db \<Rightarrow> result" where
  "login_redirect d = \<lparr>resp = Redirect ''login'' [], notices = [], store = d\<rparr>"

definition admin_login_redirect :: "db \<Rightarrow> result" where
  "admin_login_redirect d = \<lparr>resp = Redirect ''admin:login'' [], notices = [], store = d\<rparr>"

definition method_not_allowed :: "db \<Rightarrow> result" where
  "method_not_allowed d = \<lparr>resp = Http405, notices = [], store = d\<rparr>"

definition not_found :: "db \<Rightarrow> result" where
  "not_found d = \<lparr>resp = Http404, notices = [], store = d\<rparr>"

definition server_error :: "db \<Rightarrow> result" where
  "server_error d = \<lparr>resp = Http500, notices = [], store = d\<rparr>"

text \<open>\<open>staff_member_required\<close> lets an active staff user through.\<close>

definition staff_member :: "db \<Rightarrow> request \<Rightarrow> (pk \<times> User) option" where
  "staff_member d req =
     (case request_user d req of
        None \<Rightarrow> None
      | Some (uid, u) \<Rightarrow> if is_active u \<and> is_staff u then Some (uid, u) else None)"

subsection \<open>Rows of \<open>Exchange\<close>\<close>

text \<open>
  \<open>exchange.save()\<close> writes the object over the row with its primary key;
  \<open>last_updated\<close> is \<open>auto_now\<close>.
\<close>

definition save_exchange ::
  "pk \<Rightarrow> Exchange \<Rightarrow> datetime \<Rightarrow> (pk \<rightharpoonup> Exchange) \<Rightarrow> (pk \<rightharpoonup> Exchange)" where
  "save_exchange i e now tbl = tbl(i \<mapsto> e\<lparr>last_updated := now\<rparr>)"

text \<open>
  \<open>Exchange.objects.create(user1, user2, skill1, skill2, status="pending", notes)\<close>:
  every other column takes the default of the model. \<open>new_pk\<close> is the primary key the
  database assigns to the new row.
\<close>

definition create_exchange ::
  "pk \<Rightarrow> pk \<Rightarrow> pk \<Rightarrow> pk \<Rightarrow> pk \<Rightarrow> string \<Rightarrow> datetime \<Rightarrow> (pk \<rightharpoonup> Exchange)
     \<Rightarrow> (pk \<rightharpoonup> Exchange)" where
  "create_exchange new_pk u1 u2 s1 s2 txt now tbl =
     tbl(new_pk \<mapsto>
       \<lparr>user1 = u1, user2 = u2, skill1 = Some s1, skill2 = Some s2, status = Pending,
        start_date = now, end_date = None, ex_notes = txt, last_updated = now,
        user1_completed = False, user2_completed = False,
        user1_completed_date = None, user2_completed_date = None,
        admin_approved = False, admin_approved_date = None, admin_notes = []\<rparr>)"

subsection \<open>Rows of \<open>UserSkill\<close>\<close>

text \<open>\<open>.first()\<close> on a query with no ordering orders by primary key.\<close>

definition first_by_pk :: "UserSkill list \<Rightarrow> UserSkill option" where
  "first_by_pk rows = (case sort_key us_id rows of [] \<Rightarrow> None | r # _ \<Rightarrow> Some r)"

section \<open>Administration\<close>

definition admin_approve_exchange :: "db \<Rightarrow> request \<Rightarrow> pk \<Rightarrow> datetime \<Rightarrow> result" where
  "admin_approve_exchange d req exchange_id now =
     (case staff_member d req of
        None \<Rightarrow> admin_login_redirect d
      | Some _ \<Rightarrow>
          if req_method req \<noteq> POST then method_not_allowed d
          else
            (case exchanges d exchange_id of
               None \<Rightarrow> not_found d
             | Some exchange \<Rightarrow>
                 if \<not> both_users_completed exchange then
                   \<lparr>resp = Redirect ''admin_exchanges'' [],
                    notices =
                      [(Error, ''Cannot approve: Both users must complete their parts first.'')],
                    store = d\<rparr>
                 else if admin_approved exchange then
                   \<lparr>resp = Redirect ''admin_exchanges'' [],
                    notices = [(Info, ''This exchange has already been approved.'')],
                    store = d\<rparr>
                 else
                   \<lparr>resp = Redirect ''admin_exchanges'' [],
                    notices =
                      [(Success,
                        ''Exchange between {exchange.user1.username} and {exchange.user2.username} has been approved and marked as completed!'')],
                    store = d\<lparr>exchanges :=
                      save_exchange exchange_id
                        (exchange\<lparr>admin_approved := True, admin_approved_date := Some now,
                                  status := Completed\<rparr>)
                        now (exchanges d)\<rparr>\<rparr>))"

definition admin_toggle_staff :: "db \<Rightarrow> request \<Rightarrow> pk \<Rightarrow> result" where
  "admin_toggle_staff d req uid =
     (case staff_member d req of
        None \<Rightarrow> admin_login_redirect d
      | Some (me, _) \<Rightarrow>
          if req_method req \<noteq> POST then method_not_allowed d
          else
            (case users d uid of
               None \<Rightarrow> not_found d
             | Some user_to_toggle \<Rightarrow>
                 if uid = me then
                   \<lparr>resp = Redirect ''admin_users'' [],
                    notices = [(Error, ''You cannot change your own staff status!'')],
                    store = d\<rparr>
                 else
                   let t1 = user_to_toggle\<lparr>is_staff := \<not> is_staff user_to_toggle\<rparr>;
                       t2 = t1\<lparr>is_superuser := is_staff t1\<rparr>
                   in \<lparr>resp = Redirect ''admin_users'' [],
                       notices =
                         [(Success, ''User '{user_to_toggle.username}' is now a {status}.'')],
                       store = d\<lparr>users := (users d)(uid \<mapsto> t2)\<rparr>\<rparr>))"

subsection \<open>Bulk actions of \<open>ExchangeAdmin\<close>\<close>

text \<open>
  A bulk action receives the queryset of the selected rows, here the list \<open>selected\<close> of
  their primary keys. The queryset returns every selected row once.
  \<open>approve_exchanges\<close> walks the rows the queryset returned and saves each one it
  approves; it returns the number of rows it approved.
\<close>

definition queryset :: "pk list \<Rightarrow> (pk \<rightharpoonup> Exchange) \<Rightarrow> (pk \<times> Exchange) list" where
  "queryset selected tbl =
     List.map_filter (\<lambda>i. map_option (Pair i) (tbl i)) (remdups selected)"

fun approve_loop ::
  "(pk \<times> Exchange) list \<Rightarrow> datetime \<Rightarrow> nat \<times> (pk \<rightharpoonup> Exchange)
     \<Rightarrow> nat \<times> (pk \<rightharpoonup> Exchange)" where
  "approve_loop [] now acc = acc"
| "approve_loop ((i, exchange) # rest) now (updated, tbl) =
     (if both_users_completed exchange \<and> \<not> admin_approved exchange then
        approve_loop rest now
          (Suc updated,
           save_exchange i
             (exchange\<lparr>admin_approved := True, admin_approved_date := Some now,
                       status := Completed\<rparr>)
             now tbl)
      else approve_loop rest now (updated, tbl))"

definition approve_exchanges :: "db \<Rightarrow> pk list \<Rightarrow> datetime \<Rightarrow> nat \<times> db" where
  "approve_exchanges d selected now =
     (case approve_loop (queryset selected (exchanges d)) now (0, exchanges d) of
        (updated, tbl) \<Rightarrow> (updated, d\<lparr>exchanges := tbl\<rparr>))"

text \<open>\<open>queryset.update(...)\<close> writes the named columns only (no \<open>auto_now\<close>).\<close>

definition queryset_update ::
  "(Exchange \<Rightarrow> bool) \<Rightarrow> (Exchange \<Rightarrow> Exchange) \<Rightarrow> pk list \<Rightarrow> (pk \<rightharpoonup> Exchange)
     \<Rightarrow> nat \<times> (pk \<rightharpoonup> Exchange)" where
  "queryset_update hit f selected tbl =
     (length (filter (\<lambda>(i, r). hit r) (queryset selected tbl)),
      (\<lambda>i. case tbl i of
              None \<Rightarrow> None
            | Some r \<Rightarrow> if i \<in> set selected \<and> hit r then Some (f r) else Some r))"

definition mark_pending_approval :: "db \<Rightarrow> pk list \<Rightarrow> nat \<times> db" where
  "mark_pending_approval d selected =
     (case queryset_update
             (\<lambda>r. user1_completed r \<and> user2_completed r \<and> \<not> admin_approved r)
             (\<lambda>r. r\<lparr>status := Active\<rparr>) selected (exchanges d) of
        (updated, tbl) \<Rightarrow> (updated, d\<lparr>exchanges := tbl\<rparr>))"

definition reset_completion :: "db \<Rightarrow> pk list \<Rightarrow> nat \<times> db" where
  "reset_completion d selected =
     (case queryset_update (\<lambda>r. True)
             (\<lambda>r. r\<lparr>user1_completed := False, user2_completed := False,
                     user1_completed_date := None, user2_completed_date := None,
                     admin_approved := False, admin_approved_date := None\<rparr>)
             selected (exchanges d) of
        (updated, tbl) \<Rightarrow> (updated, d\<lparr>exchanges := tbl\<rparr>))"

section \<open>Exchange lifecycle\<close>

definition start_exchange :: "db \<Rightarrow> request \<Rightarrow> pk \<Rightarrow> pk \<Rightarrow> pk \<Rightarrow> datetime \<Rightarrow> result" where
  "start_exchange d req uid us_pk new_pk now =
     (case request_user d req of
        None \<Rightarrow> login_redirect d
      | Some (current_user, _) \<Rightarrow>
          (case find (\<lambda>r. us_id r = us_pk \<and> us_user r = uid) (user_skills d) of
             None \<Rightarrow> not_found d
           | Some other_user_skill \<Rightarrow>
               (case first_by_pk
                       (filter (\<lambda>r. us_user r = current_user \<and> us_role r = Offer)
                          (user_skills d)) of
                  None \<Rightarrow>
                    \<lparr>resp = Redirect ''dashboard'' [],
                     notices =
                       [(Error,
                         ''You must add a skill you can offer before starting an exchange.'')],
                     store = d\<rparr>
                | Some teach_skill \<Rightarrow>
                    \<lparr>resp = Redirect ''dashboard'' [],
                     notices =
                       [(Success, ''Exchange request sent to {other_user_skill.user.username}!'')],
                     store = d\<lparr>exchanges :=
                       create_exchange new_pk current_user (us_user other_user_skill)
                         (us_skill teach_skill) (us_skill other_user_skill) [] now
                         (exchanges d)\<rparr>\<rparr>)))"

definition propose_exchange_view :: "db \<Rightarrow> request \<Rightarrow> pk \<Rightarrow> pk \<Rightarrow> datetime \<Rightarrow> result" where
  "propose_exchange_view d req user_skill_id new_pk now =
     (case request_user d req of
        None \<Rightarrow> login_redirect d
      | Some (me, _) \<Rightarrow>
          (case find (\<lambda>r. us_id r = user_skill_id \<and> us_role r = Offer) (user_skills d) of
             None \<Rightarrow> not_found d
           | Some other_user_skill \<Rightarrow>
               if us_user other_user_skill = me then
                 \<lparr>resp = Redirect ''marketplace'' [],
                  notices = [(Error, ''You cannot propose an exchange with yourself!'')],
                  store = d\<rparr>
               else if req_method req = POST then
                 (case post_my_skill req of
                    NoInput \<Rightarrow>
                      \<lparr>resp = Redirect ''propose_exchange'' [user_skill_id],
                       notices = [(Error, ''Please select a skill you want to offer.'')],
                       store = d\<rparr>
                  | BadInput \<Rightarrow> server_error d
                  | PkInput my_skill_id \<Rightarrow>
                      (case find (\<lambda>r. us_id r = my_skill_id \<and> us_user r = me
                                        \<and> us_role r = Offer) (user_skills d) of
                         None \<Rightarrow> not_found d
                       | Some my_skill \<Rightarrow>
                           \<lparr>resp = Redirect ''dashboard'' [],
                            notices = [(Success, ''Exchange proposal sent to {name}!'')],
                            store = d\<lparr>exchanges :=
                              create_exchange new_pk me (us_user other_user_skill)
                                (us_skill my_skill) (us_skill other_user_skill)
                                (case post_notes req of None \<Rightarrow> [] | Some txt \<Rightarrow> txt) now
                                (exchanges d)\<rparr>\<rparr>))
               else \<lparr>resp = Render ''propose_exchange.html'', notices = [], store = d\<rparr>))"

text \<open>
  \<open>accept_exchange\<close> saves the row and then formats its notice with
  \<open>exchange.skill1.name\<close>. \<open>skill1\<close> is nullable (\<open>SET_NULL\<close>): on \<open>None\<close> the attribute
  access raises after the save.
\<close>

definition accept_exchange :: "db \<Rightarrow> request \<Rightarrow> pk \<Rightarrow> datetime \<Rightarrow> result" where
  "accept_exchange d req exchange_id now =
     (case request_user d req of
        None \<Rightarrow> login_redirect d
      | Some (me, _) \<Rightarrow>
          (case exchanges d exchange_id of
             None \<Rightarrow> not_found d
           | Some exchange \<Rightarrow>
               if \<not> (user2 exchange = me \<and> status exchange = Pending) then not_found d
               else
                 let d' = d\<lparr>exchanges :=
                            save_exchange exchange_id (exchange\<lparr>status := Active\<rparr>) now
                              (exchanges d)\<rparr>
                 in if skill1 exchange = None then server_error d'
                    else
                      \<lparr>resp = Redirect ''dashboard'' [],
                       notices =
                         [(Success,
                           ''Exchange accepted! You can now start learning {exchange.skill1.name} from {name}.'')],
                       store = d'\<rparr>))"

definition reject_exchange :: "db \<Rightarrow> request \<Rightarrow> pk \<Rightarrow> datetime \<Rightarrow> result" where
  "reject_exchange d req exchange_id now =
     (case request_user d req of
        None \<Rightarrow> login_redirect d
      | Some (me, _) \<Rightarrow>
          (case exchanges d exchange_id of
             None \<Rightarrow> not_found d
           | Some exchange \<Rightarrow>
               if \<not> (user2 exchange = me \<and> status exchange = Pending) then not_found d
               else
                 \<lparr>resp = Redirect ''dashboard'' [],
                  notices = [(Info, ''Exchange proposal declined.'')],
                  store = d\<lparr>exchanges :=
                    save_exchange exchange_id (exchange\<lparr>status := Cancelled\<rparr>) now
                      (exchanges d)\<rparr>\<rparr>))"

definition marked_complete_text :: string where
  "marked_complete_text =
     ''Your part of the exchange is marked as complete! Once the other user also marks their part complete, an admin will review and approve it.''"

definition both_completed_text :: string where
  "both_completed_text =
     ''Both users have completed their parts! Waiting for admin approval to finalize this exchange.''"

text \<open>
  The notice the handler adds last, from the object as the branch above left it.
\<close>

definition both_completed_notice :: "Exchange \<Rightarrow> notice list" where
  "both_completed_notice exchange =
     (if both_users_completed exchange \<and> \<not> admin_approved exchange
      then [(Info, both_completed_text)] else [])"

definition mark_exchange_complete :: "db \<Rightarrow> request \<Rightarrow> pk \<Rightarrow> datetime \<Rightarrow> result" where
  "mark_exchange_complete d req exchange_id now =
     (case request_user d req of
        None \<Rightarrow> login_redirect d
      | Some (user, _) \<Rightarrow>
          if req_method req \<noteq> POST then method_not_allowed d
          else
            (case exchanges d exchange_id of
               None \<Rightarrow> not_found d
             | Some exchange \<Rightarrow>
                 if \<not> ((user1 exchange = user \<or> user2 exchange = user)
                        \<and> status exchange = Active) then not_found d
                 else
                   let is_user1 = (user = user1 exchange) in
                   if is_user1 \<and> \<not> user1_completed exchange then
                     let exchange' = exchange\<lparr>user1_completed := True,
                                               user1_completed_date := Some now\<rparr>
                     in \<lparr>resp = Redirect ''exchanges'' [],
                         notices =
                           (Success, marked_complete_text) # both_completed_notice exchange',
                         store = d\<lparr>exchanges :=
                           save_exchange exchange_id exchange' now (exchanges d)\<rparr>\<rparr>
                   else if \<not> is_user1 \<and> \<not> user2_completed exchange then
                     let exchange' = exchange\<lparr>user2_completed := True,
                                               user2_completed_date := Some now\<rparr>
                     in \<lparr>resp = Redirect ''exchanges'' [],
                         notices =
                           (Success, marked_complete_text) # both_completed_notice exchange',
                         store = d\<lparr>exchanges :=
                           save_exchange exchange_id exchange' now (exchanges d)\<rparr>\<rparr>
                   else
                     \<lparr>resp = Redirect ''exchanges'' [],
                      notices =
                        (Info, ''You've already marked this exchange as complete.'')
                        # both_completed_notice exchange,
                      store = d\<rparr>))"

section \<open>Dashboard: potential matches\<close>

text \<open>
  \<open>select_related("user", "user__userprofile", "skill")\<close> on \<open>UserSkill\<close> is an inner join
  on the non-null foreign keys: the query returns a row together with its user row and
  its skill row.
\<close>

definition join_user_skill :: "db \<Rightarrow> UserSkill \<Rightarrow> (UserSkill \<times> User \<times> Skill) option" where
  "join_user_skill d r =
     (case users d (us_user r) of
        None \<Rightarrow> None
      | Some u \<Rightarrow> (case skills d (us_skill r) of None \<Rightarrow> None | Some s \<Rightarrow> Some (r, u, s)))"

text \<open>\<open>str.upper\<close> on ASCII text.\<close>

definition char_upper :: "char \<Rightarrow> char" where
  "char_upper c =
     (let n = (of_char c :: nat) in if 97 \<le> n \<and> n \<le> 122 then char_of (n - 32) else c)"

definition upper :: "string \<Rightarrow> string" where
  "upper s = map char_upper s"

text \<open>
  The name shown for a user: the profile's full name when there is a profile with a
  non-empty full name, the username otherwise.
\<close>

definition display_name :: "User \<Rightarrow> string" where
  "display_name u =
     (case up_full_name u of
        None \<Rightarrow> username u
      | Some n \<Rightarrow> if n \<noteq> [] then n else username u)"

record match =
  m_initials :: string
  m_name :: string
  m_user_id :: pk
  m_offer :: string
  m_want :: string

definition my_seeking_skills :: "db \<Rightarrow> pk \<Rightarrow> pk list" where
  "my_seeking_skills d user =
     map us_skill (filter (\<lambda>r. us_user r = user \<and> us_role r = Seek) (user_skills d))"

definition my_offering_skills :: "db \<Rightarrow> pk \<Rightarrow> pk list" where
  "my_offering_skills d user =
     map us_skill (filter (\<lambda>r. us_user r = user \<and> us_role r = Offer) (user_skills d))"

definition potential_matches :: "db \<Rightarrow> pk \<Rightarrow> (UserSkill \<times> User \<times> Skill) list" where
  "potential_matches d user =
     take 10
       (List.map_filter (join_user_skill d)
          (filter (\<lambda>r. us_skill r \<in> set (my_seeking_skills d user) \<and> us_role r = Offer
                        \<and> us_user r \<noteq> user)
             (user_skills d)))"

text \<open>
  \<open>their_seeking\<close>: the first row, by primary key, in which the other user seeks a skill
  the viewer offers, joined with its skill row.
\<close>

definition their_seeking :: "db \<Rightarrow> pk \<Rightarrow> pk \<Rightarrow> (UserSkill \<times> Skill) option" where
  "their_seeking d user other_user =
     (case first_by_pk
             (filter (\<lambda>r. us_user r = other_user \<and> us_role r = Seek
                           \<and> us_skill r \<in> set (my_offering_skills d user)
                           \<and> skills d (us_skill r) \<noteq> None)
                (user_skills d)) of
        None \<Rightarrow> None
      | Some r \<Rightarrow> map_option (Pair r) (skills d (us_skill r)))"

fun match_loop ::
  "db \<Rightarrow> pk \<Rightarrow> (UserSkill \<times> User \<times> Skill) list \<Rightarrow> match list \<Rightarrow> match list" where
  "match_loop d user [] matches = matches"
| "match_loop d user ((match_skill, other_user, offered) # rest) matches =
     (case their_seeking d user (us_user match_skill) of
        None \<Rightarrow> match_loop d user rest matches
      | Some (wanted_row, wanted) \<Rightarrow>
          let name = display_name other_user;
              initials = (if length name \<ge> 2 then upper (take 2 name) else upper (take 1 name));
              matches' = matches @
                [\<lparr>m_initials = initials, m_name = name, m_user_id = us_user match_skill,
                  m_offer = skill_name offered, m_want = skill_name wanted\<rparr>]
          in if length matches' \<ge> 3 then matches' else match_loop d user rest matches')"

text \<open>The list \<open>matches\<close> that \<open>dashboard_view\<close> computes for \<open>request.user\<close>.\<close>

definition dashboard_matches :: "db \<Rightarrow> pk \<Rightarrow> match list" where
  "dashboard_matches d user =
     (if my_seeking_skills d user \<noteq> [] \<and> my_offering_skills d user \<noteq> []
      then match_loop d user (potential_matches d user) []
      else [])"

section \<open>Messages\<close>

text \<open>
  \<open>str.strip()\<close> removes leading and trailing whitespace. The whitespace code points
  of Python 3 (those for which \<open>str.isspace\<close> holds) are: U+0009 to U+000D, U+001C to
  U+0020, U+0085, U+00A0, U+1680, U+2000 to U+200A, U+2028, U+2029, U+202F, U+205F and
  U+3000.
\<close>

definition isspace :: "nat \<Rightarrow> bool" where
  "isspace c \<longleftrightarrow>
     (9 \<le> c \<and> c \<le> 13) \<or> (28 \<le> c \<and> c \<le> 32) \<or> c = 133 \<or> c = 160 \<or> c = 5760
     \<or> (8192 \<le> c \<and> c \<le> 8202) \<or> c = 8232 \<or> c = 8233 \<or> c = 8239 \<or> c = 8287
     \<or> c = 12288"

definition strip :: "pystr \<Rightarrow> pystr" where
  "strip s = rev (dropWhile isspace (rev (dropWhile isspace s)))"

text \<open>
  \<open>max(xs, key=..., default=None)\<close>: the first element whose key is maximal.
\<close>

fun py_max :: "('a \<Rightarrow> 'k::linorder) \<Rightarrow> 'a list \<Rightarrow> 'a option" where
  "py_max key [] = None"
| "py_max key (x # xs) = Some (foldl (\<lambda>best y. if key best < key y then y else best) x xs)"

record conversation =
  conv_user :: "pk \<times> User"
  last_message :: "Message option"
  unread_count :: nat

definition sent_to_ids :: "db \<Rightarrow> pk \<Rightarrow> pk list" where
  "sent_to_ids d current_user =
     remdups (map receiver (filter (\<lambda>m. sender m = current_user) (messages d)))"

definition received_from_ids :: "db \<Rightarrow> pk \<Rightarrow> pk list" where
  "received_from_ids d current_user =
     remdups (map sender (filter (\<lambda>m. receiver m = current_user) (messages d)))"

definition conversation_user_ids :: "db \<Rightarrow> pk \<Rightarrow> pk set" where
  "conversation_user_ids d current_user =
     set (sent_to_ids d current_user @ received_from_ids d current_user)"

text \<open>
  The default ordering of \<open>Message\<close> is by \<open>timestamp\<close>.
\<close>

definition all_messages :: "db \<Rightarrow> pk \<Rightarrow> Message list" where
  "all_messages d current_user =
     sort_key timestamp
       (filter (\<lambda>m. (sender m = current_user \<and> receiver m \<in> conversation_user_ids d current_user)
                     \<or> (sender m \<in> conversation_user_ids d current_user \<and> receiver m = current_user))
          (messages d))"

text \<open>
  The loop over \<open>conversation_user_ids\<close>. Python does not fix the order in which a set
  is walked: \<open>uids\<close> is the order of this run.
\<close>

fun conversations_loop :: "db \<Rightarrow> pk \<Rightarrow> pk list \<Rightarrow> conversation list" where
  "conversations_loop d current_user [] = []"
| "conversations_loop d current_user (uid # rest) =
     (case (users d |` conversation_user_ids d current_user) uid of
        None \<Rightarrow> conversations_loop d current_user rest
      | Some other_user \<Rightarrow>
          let user_messages =
                filter (\<lambda>m. (sender m = current_user \<and> receiver m = uid)
                             \<or> (sender m = uid \<and> receiver m = current_user))
                  (all_messages d current_user)
          in \<lparr>conv_user = (uid, other_user),
              last_message = py_max timestamp user_messages,
              unread_count =
                length (filter (\<lambda>m. sender m = uid \<and> receiver m = current_user \<and> \<not> is_read m)
                          user_messages)\<rparr>
             # conversations_loop d current_user rest)"

definition conversation_key :: "conversation \<Rightarrow> datetime" where
  "conversation_key x =
     (case last_message x of
        Some m \<Rightarrow> timestamp m
      | None \<Rightarrow> date_joined (snd (conv_user x)))"

text \<open>\<open>list.sort(key=..., reverse=True)\<close> is stable: equal keys keep their order.\<close>

definition sort_reverse :: "('a \<Rightarrow> 'k::linorder) \<Rightarrow> 'a list \<Rightarrow> 'a list" where
  "sort_reverse key xs = rev (sort_key key (rev xs))"

definition conversations_of :: "db \<Rightarrow> pk \<Rightarrow> pk list \<Rightarrow> conversation list" where
  "conversations_of d current_user uids =
     sort_reverse conversation_key (conversations_loop d current_user uids)"

text \<open>
  \<open>Message.objects.filter(sender=selected_user, receiver=current_user,
  is_read=False).update(is_read=True)\<close>.
\<close>

definition mark_read :: "pk \<Rightarrow> pk \<Rightarrow> Message list \<Rightarrow> Message list" where
  "mark_read selected_user current_user tbl =
     map (\<lambda>m. if sender m = selected_user \<and> receiver m = current_user \<and> \<not> is_read m
               then m\<lparr>is_read := True\<rparr> else m) tbl"

definition thread :: "pk \<Rightarrow> pk \<Rightarrow> Message list \<Rightarrow> Message list" where
  "thread current_user selected_user tbl =
     sort_key timestamp
       (filter (\<lambda>m. (sender m = current_user \<and> receiver m = selected_user)
                     \<or> (sender m = selected_user \<and> receiver m = current_user)) tbl)"

text \<open>\<open>request.POST.get("content", "").strip()\<close>.\<close>

definition form_content :: "request \<Rightarrow> pystr" where
  "form_content req = strip (case post_content req of None \<Rightarrow> [] | Some c \<Rightarrow> c)"

text \<open>
  What \<open>messages_view\<close> returns: the response, the stored state it leaves and, when it
  renders the page, the template context.
\<close>

record messages_context =
  conversations :: "conversation list"
  selected_user :: "(pk \<times> User) option"
  messages_list :: "Message list"

record messages_result =
  mv_resp :: response
  mv_context :: "messages_context option"
  mv_store :: db

definition messages_view ::
  "db \<Rightarrow> request \<Rightarrow> pk option \<Rightarrow> datetime \<Rightarrow> pk list \<Rightarrow> messages_result" where
  "messages_view d req user_id now uids =
     (case request_user d req of
        None \<Rightarrow> \<lparr>mv_resp = Redirect ''login'' [], mv_context = None, mv_store = d\<rparr>
      | Some (current_user, _) \<Rightarrow>
          let conversations = conversations_of d current_user uids;
              no_selection =
                \<lparr>mv_resp = Render ''messages.html'',
                 mv_context = Some \<lparr>conversations = conversations, selected_user = None,
                                    messages_list = []\<rparr>,
                 mv_store = d\<rparr>
          in
          (case user_id of
             None \<Rightarrow> no_selection
           | Some uid \<Rightarrow>
               if uid = 0 then no_selection
               else
                 (case users d uid of
                    None \<Rightarrow> \<lparr>mv_resp = Http404, mv_context = None, mv_store = d\<rparr>
                  | Some selected \<Rightarrow>
                      let d' = d\<lparr>messages := mark_read uid current_user (messages d)\<rparr>;
                          content = form_content req
                      in if req_method req = POST \<and> content \<noteq> [] then
                           \<lparr>mv_resp = Redirect ''conversation'' [uid], mv_context = None,
                            mv_store = d'\<lparr>messages := messages d' @
                              [\<lparr>sender = current_user, receiver = uid, content = content,
                                timestamp = now, is_read = False\<rparr>]\<rparr>\<rparr>
                         else
                           \<lparr>mv_resp = Render ''messages.html'',
                            mv_context = Some \<lparr>conversations = conversations,
                                               selected_user = Some (uid, selected),
                                               messages_list =
                                                 thread current_user uid (messages d')\<rparr>,
                            mv_store = d'\<rparr>)))"

section \<open>Properties stated by the specification\<close>

text \<open>The invariant of an \<open>Exchange\<close> row, and of the table.\<close>

definition exchange_inv :: "Exchange \<Rightarrow> bool" where
  "exchange_inv e \<longleftrightarrow> (admin_approved e \<longrightarrow> user1_completed e \<and> user2_completed e)"

definition exchanges_inv :: "db \<Rightarrow> bool" where
  "exchanges_inv d \<longleftrightarrow> (\<forall>i e. exchanges d i = Some e \<longrightarrow> exchange_inv e)"

text \<open>
  The completion flag of a participant, as \<open>exchanges_view\<close> reads it
  (\<open>my_completed\<close>): the first flag for \<open>user1\<close>, the second otherwise.
\<close>

definition my_completed :: "pk \<Rightarrow> Exchange \<Rightarrow> bool" where
  "my_completed user e = (if user1 e = user then user1_completed e else user2_completed e)"

text \<open>
  A match is reciprocal for the viewer: its counterpart is another user, who offers a
  skill the viewer seeks (the match names it in \<open>m_offer\<close>) and seeks a skill the viewer
  offers (named in \<open>m_want\<close>).
\<close>

definition reciprocal :: "db \<Rightarrow> pk \<Rightarrow> match \<Rightarrow> bool" where
  "reciprocal d user m \<longleftrightarrow>
     m_user_id m \<noteq> user
     \<and> (\<exists>r \<in> set (user_skills d). \<exists>s.
           us_user r = m_user_id m \<and> us_role r = Offer
           \<and> us_skill r \<in> set (my_seeking_skills d user)
           \<and> skills d (us_skill r) = Some s \<and> skill_name s = m_offer m)
     \<and> (\<exists>r \<in> set (user_skills d). \<exists>s.
           us_user r = m_user_id m \<and> us_role r = Seek
           \<and> us_skill r \<in> set (my_offering_skills d user)
           \<and> skills d (us_skill r) = Some s \<and> skill_name s = m_want m)"

text \<open>
  The number of stored messages from \<open>c\<close> to the viewer that are not read.
\<close>

definition unread_from :: "db \<Rightarrow> pk \<Rightarrow> pk \<Rightarrow> nat" where
  "unread_from d viewer c =
     length (filter (\<lambda>m. sender m = c \<and> receiver m = viewer \<and> \<not> is_read m) (messages d))"

text \<open>
  The sort key of a conversation as the specification words it: the timestamp of the
  latest message between the viewer and the counterpart among \<open>msgs\<close>, or the
  counterpart's account-creation timestamp when there is no such message.
\<close>

definition between :: "pk \<Rightarrow> pk \<Rightarrow> Message \<Rightarrow> bool" where
  "between a b m \<longleftrightarrow> (sender m = a \<and> receiver m = b) \<or> (sender m = b \<and> receiver m = a)"

definition latest_timestamp :: "Message list \<Rightarrow> pk \<Rightarrow> pk \<Rightarrow> datetime option" where
  "latest_timestamp msgs viewer c =
     (case filter (between viewer c) msgs of
        [] \<Rightarrow> None
      | m # ms \<Rightarrow> Some (Max (set (map timestamp (m # ms)))))"

definition spec_conversation_key :: "Message list \<Rightarrow> pk \<Rightarrow> pk \<times> User \<Rightarrow> datetime" where
  "spec_conversation_key msgs viewer c =
     (case latest_timestamp msgs viewer (fst c) of
        Some t \<Rightarrow> t
      | None \<Rightarrow> date_joined (snd c))"

section \<open>Example data\<close>

text \<open>
  The end-to-end example of the specification: Alice (1) offers Guitar (1) and seeks
  Chess (2), Bob (2) offers Chess and seeks Guitar; Carol (3) is staff.
\<close>

definition alice :: User where
  "alice = \<lparr>username = ''alice@example.org'', is_active = True, is_staff = False,
            is_superuser = False, date_joined = 10, up_full_name = Some ''Alice''\<rparr>"

definition bob :: User where
  "bob = \<lparr>username = ''bob@example.org'', is_active = True, is_staff = False,
          is_superuser = False, date_joined = 20, up_full_name = None\<rparr>"

definition carol :: User where
  "carol = \<lparr>username = ''carol@example.org'', is_active = True, is_staff = True,
            is_superuser = True, date_joined = 5, up_full_name = Some ''Carol''\<rparr>"

definition example_user_skills :: "UserSkill list" where
  "example_user_skills =
     [\<lparr>us_id = 1, us_user = 1, us_skill = 1, us_role = Offer,
       us_proficiency = Advanced, us_experience_years = 4\<rparr>,
      \<lparr>us_id = 2, us_user = 2, us_skill = 1, us_role = Seek,
       us_proficiency = Beginner, us_experience_years = 0\<rparr>,
      \<lparr>us_id = 3, us_user = 2, us_skill = 2, us_role = Offer,
       us_proficiency = Expert, us_experience_years = 9\<rparr>,
      \<lparr>us_id = 4, us_user = 1, us_skill = 2, us_role = Seek,
       us_proficiency = Beginner, us_experience_years = 0\<rparr>]"

text \<open>An exchange between Alice and Bob, in the state given by the arguments.\<close>

definition example_exchange :: "status \<Rightarrow> bool \<Rightarrow> bool \<Rightarrow> bool \<Rightarrow> Exchange" where
  "example_exchange st c1 c2 approved =
     \<lparr>user1 = 1, user2 = 2, skill1 = Some 1, skill2 = Some 2, status = st,
      start_date = 30, end_date = None, ex_notes = [], last_updated = 30,
      user1_completed = c1, user2_completed = c2,
      user1_completed_date = (if c1 then Some 40 else None),
      user2_completed_date = (if c2 then Some 41 else None),
      admin_approved = approved,
      admin_approved_date = (if approved then Some 50 else None), admin_notes = []\<rparr>"

text \<open>The code points of an ASCII literal.\<close>

definition text_of :: "string \<Rightarrow> pystr" where
  "text_of s = map of_char s"

definition example_message :: "pk \<Rightarrow> pk \<Rightarrow> pystr \<Rightarrow> datetime \<Rightarrow> bool \<Rightarrow> Message" where
  "example_message s r c t rd =
     \<lparr>sender = s, receiver = r, content = c, timestamp = t, is_read = rd\<rparr>"

definition example_messages :: "Message list" where
  "example_messages =
     [example_message 2 1 (text_of ''hi'') 55 False,
      example_message 1 3 (text_of ''yo'') 56 False]"

text \<open>The example store with one exchange (primary key 7) and the given messages.\<close>

definition example_db :: "Exchange \<Rightarrow> Message list \<Rightarrow> db" where
  "example_db e ms =
     \<lparr>users = [1 \<mapsto> alice, 2 \<mapsto> bob, 3 \<mapsto> carol],
      skills = [1 \<mapsto> \<lparr>skill_name = ''Guitar'', skill_category = None\<rparr>,
                2 \<mapsto> \<lparr>skill_name = ''Chess'', skill_category = None\<rparr>],
      user_skills = example_user_skills,
      exchanges = [7 \<mapsto> e],
      messages = ms\<rparr>"

text \<open>A request of the user \<open>uid\<close> with no form data.\<close>

definition example_request :: "pk \<Rightarrow> http_method \<Rightarrow> request" where
  "example_request uid m =
     \<lparr>req_user = Some uid, req_method = m, post_content = None,
      post_my_skill = NoInput, post_notes = None\<rparr>"

section \<open>The approval invariant\<close>

text \<open>A store with no exchange satisfies the invariant.\<close>

lemma exchanges_inv_empty: "exchanges d = Map.empty \<Longrightarrow> exchanges_inv d"
  by (simp add: exchanges_inv_def)

lemma save_exchange_inv:
  "(\<forall>i e. tbl i = Some e \<longrightarrow> exchange_inv e) \<Longrightarrow> exchange_inv e' \<Longrightarrow>
   save_exchange j e' now tbl i = Some e \<Longrightarrow> exchange_inv e"
  by (auto simp: save_exchange_def exchange_inv_def split: if_splits)

lemma create_exchange_inv:
  "(\<forall>i e. tbl i = Some e \<longrightarrow> exchange_inv e) \<Longrightarrow>
   create_exchange k u1 u2 s1 s2 txt now tbl i = Some e \<Longrightarrow> exchange_inv e"
  by (auto simp: create_exchange_def exchange_inv_def split: if_splits)

lemma approve_loop_inv:
  "(\<forall>i e. tbl i = Some e \<longrightarrow> exchange_inv e) \<Longrightarrow>
   (\<forall>i e. snd (approve_loop rows now (n, tbl)) i = Some e \<longrightarrow> exchange_inv e)"
proof (induction rows arbitrary: n tbl)
  case Nil
  then show ?case by simp
next
  case (Cons row rows)
  obtain j x where row: "row = (j, x)" by (cases row)
  show ?case
  proof (cases "both_users_completed x \<and> \<not> admin_approved x")
    case True
    let ?x' = "x\<lparr>admin_approved := True, admin_approved_date := Some now, status := Completed\<rparr>"
    have "exchange_inv ?x'"
      using True by (simp add: exchange_inv_def both_users_completed_def)
    then have "\<forall>i e. save_exchange j ?x' now tbl i = Some e \<longrightarrow> exchange_inv e"
      using Cons.prems save_exchange_inv by blast
    from Cons.IH[OF this] show ?thesis using True row by simp
  next
    case False
    from Cons.IH[OF Cons.prems] show ?thesis using False row by auto
  qed
qed

lemma start_exchange_inv:
  "exchanges_inv d \<Longrightarrow> exchanges_inv (store (start_exchange d req uid k new_pk now))"
  unfolding exchanges_inv_def start_exchange_def login_redirect_def not_found_def
  by (auto split: option.splits dest: create_exchange_inv[rotated])

lemma propose_exchange_view_inv:
  "exchanges_inv d \<Longrightarrow> exchanges_inv (store (propose_exchange_view d req k new_pk now))"
  unfolding exchanges_inv_def propose_exchange_view_def login_redirect_def not_found_def
    server_error_def
  by (auto split: option.splits pk_input.splits dest: create_exchange_inv[rotated])

lemma accept_exchange_inv:
  "exchanges_inv d \<Longrightarrow> exchanges_inv (store (accept_exchange d req i now))"
  unfolding exchanges_inv_def accept_exchange_def login_redirect_def not_found_def
    server_error_def save_exchange_def exchange_inv_def Let_def
  by (auto split: option.splits if_splits)

lemma reject_exchange_inv:
  "exchanges_inv d \<Longrightarrow> exchanges_inv (store (reject_exchange d req i now))"
  unfolding exchanges_inv_def reject_exchange_def login_redirect_def not_found_def
    save_exchange_def exchange_inv_def
  by (auto split: option.splits if_splits)

lemma mark_exchange_complete_inv:
  "exchanges_inv d \<Longrightarrow> exchanges_inv (store (mark_exchange_complete d req i now))"
  unfolding exchanges_inv_def mark_exchange_complete_def login_redirect_def not_found_def
    method_not_allowed_def save_exchange_def exchange_inv_def Let_def
  by (auto split: option.splits if_splits)

lemma admin_approve_exchange_inv:
  "exchanges_inv d \<Longrightarrow> exchanges_inv (store (admin_approve_exchange d req i now))"
  unfolding exchanges_inv_def admin_approve_exchange_def admin_login_redirect_def not_found_def
    method_not_allowed_def save_exchange_def exchange_inv_def both_users_completed_def
  by (auto split: option.splits if_splits)

lemma approve_exchanges_inv:
  assumes "exchanges_inv d"
  shows "exchanges_inv (snd (approve_exchanges d selected now))"
proof -
  obtain n tbl where
    l: "approve_loop (queryset selected (exchanges d)) now (0, exchanges d) = (n, tbl)"
    by (cases "approve_loop (queryset selected (exchanges d)) now (0, exchanges d)")
  have "\<forall>i e. snd (approve_loop (queryset selected (exchanges d)) now (0, exchanges d)) i = Some e
           \<longrightarrow> exchange_inv e"
    using assms approve_loop_inv unfolding exchanges_inv_def by blast
  then show ?thesis using l by (simp add: approve_exchanges_def exchanges_inv_def)
qed

lemma mark_pending_approval_inv:
  "exchanges_inv d \<Longrightarrow> exchanges_inv (snd (mark_pending_approval d selected))"
  unfolding exchanges_inv_def mark_pending_approval_def
  by (auto simp: exchange_inv_def queryset_update_def split: prod.splits option.splits if_splits)

lemma reset_completion_inv:
  "exchanges_inv d \<Longrightarrow> exchanges_inv (snd (reset_completion d selected))"
  unfolding exchanges_inv_def reset_completion_def
  by (auto simp: exchange_inv_def queryset_update_def split: prod.splits option.splits if_splits)

text \<open>
  C1. If every stored exchange satisfies "admin_approved implies user1_completed and
  user2_completed", then so does every stored exchange after any operation that writes
  exchanges: create (\<open>start_exchange\<close>, \<open>propose_exchange_view\<close>), accept, reject,
  mark-complete, admin approve (the view and the bulk action), hold for review and the
  bulk reset.
\<close>

theorem approval_invariant_preserved:
  assumes "exchanges_inv d"
  shows "exchanges_inv (store (start_exchange d req uid k new_pk now))
       \<and> exchanges_inv (store (propose_exchange_view d req k new_pk now))
       \<and> exchanges_inv (store (accept_exchange d req i now))
       \<and> exchanges_inv (store (reject_exchange d req i now))
       \<and> exchanges_inv (store (mark_exchange_complete d req i now))
       \<and> exchanges_inv (store (admin_approve_exchange d req i now))
       \<and> exchanges_inv (snd (approve_exchanges d selected now))
       \<and> exchanges_inv (snd (mark_pending_approval d selected))
       \<and> exchanges_inv (snd (reset_completion d selected))"
  using assms
  by (simp add: start_exchange_inv propose_exchange_view_inv accept_exchange_inv
      reject_exchange_inv mark_exchange_complete_inv admin_approve_exchange_inv
      approve_exchanges_inv mark_pending_approval_inv reset_completion_inv)

text \<open>
  In the example store both participants have marked the exchange complete. The
  invariant holds; the staff user approves exchange 7; the row is approved and the
  invariant holds again.
\<close>

theorem approval_invariant_preserved_witness:
  "exchanges_inv (example_db (example_exchange Active True True False) [])
   \<and> exchanges_inv
       (store (admin_approve_exchange (example_db (example_exchange Active True True False) [])
                 (example_request 3 POST) 7 60))
   \<and> map_option admin_approved
       (exchanges
          (store (admin_approve_exchange (example_db (example_exchange Active True True False) [])
                    (example_request 3 POST) 7 60)) 7) = Some True"
proof -
  let ?d = "example_db (example_exchange Active True True False) []"
  have h: "exchanges_inv ?d"
    by (simp add: exchanges_inv_def exchange_inv_def example_db_def example_exchange_def)
  have ev: "map_option admin_approved
       (exchanges (store (admin_approve_exchange ?d (example_request 3 POST) 7 60)) 7) = Some True"
    by (simp add: admin_approve_exchange_def staff_member_def request_user_def example_db_def
        example_request_def example_exchange_def carol_def both_users_completed_def
        save_exchange_def)
  from approval_invariant_preserved[OF h, where req = "example_request 3 POST" and i = 7
      and now = 60]
  have "exchanges_inv (store (admin_approve_exchange ?d (example_request 3 POST) 7 60))"
    by blast
  with h ev show ?thesis by blast
qed

section \<open>Completion status\<close>

text \<open>
  C2. The completion status of an exchange is the specification's function of the triple
  (admin_approved, user1_completed, user2_completed): admin approved first, then awaiting
  admin approval when both flags are set, then partially complete when exactly one flag
  is set, then in progress. No other field is read: the right-hand side mentions only the
  three flags. The method returns a label and no exchange, so nothing is written.
\<close>

theorem completion_status_of_triple:
  "completion_status e =
     spec_completion_status (admin_approved e, user1_completed e, user2_completed e)"
  by (auto simp: completion_status_def spec_completion_status_def both_users_completed_def)

section \<open>Admin approval\<close>

text \<open>
  C3. A staff user posts the approval of a stored exchange. When both completion flags
  are set and the exchange is not approved, the row gets admin_approved = true,
  admin_approved_date = now and status = completed (and the save stamps last_updated);
  nothing else in the store changes. When a completion flag is not set, the handler
  queues an error notice, redirects, and the store is unchanged. When the exchange is
  approved already (a stored row then has both flags set, by the invariant), the handler
  queues an informational notice, redirects, and the store is unchanged.
\<close>

theorem admin_approve_exchange_cases:
  assumes "staff_member d req = Some me" and "req_method req = POST"
    and "exchanges d i = Some e"
  shows "(user1_completed e \<and> user2_completed e \<and> \<not> admin_approved e \<longrightarrow>
            store (admin_approve_exchange d req i now) =
              d\<lparr>exchanges := (exchanges d)(i \<mapsto>
                   e\<lparr>admin_approved := True, admin_approved_date := Some now,
                     status := Completed, last_updated := now\<rparr>)\<rparr>
            \<and> map fst (notices (admin_approve_exchange d req i now)) = [Success]
            \<and> resp (admin_approve_exchange d req i now) = Redirect ''admin_exchanges'' [])
       \<and> (\<not> (user1_completed e \<and> user2_completed e) \<longrightarrow>
            store (admin_approve_exchange d req i now) = d
            \<and> map fst (notices (admin_approve_exchange d req i now)) = [Error]
            \<and> resp (admin_approve_exchange d req i now) = Redirect ''admin_exchanges'' [])
       \<and> (exchange_inv e \<and> admin_approved e \<longrightarrow>
            store (admin_approve_exchange d req i now) = d
            \<and> map fst (notices (admin_approve_exchange d req i now)) = [Info]
            \<and> resp (admin_approve_exchange d req i now) = Redirect ''admin_exchanges'' [])"
  using assms
  by (simp add: admin_approve_exchange_def both_users_completed_def save_exchange_def
      exchange_inv_def)

lemma example_staff:
  "staff_member (example_db e ms) (example_request 3 POST) = Some (3, carol)"
  by (simp add: staff_member_def request_user_def example_db_def example_request_def carol_def)

lemma example_post: "req_method (example_request uid POST) = POST"
  by (simp add: example_request_def)

lemma example_row: "exchanges (example_db e ms) 7 = Some e"
  by (simp add: example_db_def)

lemma example_no_row: "exchanges (example_db e ms) 8 = None"
  by (simp add: example_db_def)

text \<open>
  The three cases on the example store: ready and not approved, one flag missing,
  approved already.
\<close>

theorem admin_approve_exchange_cases_witness:
  "store (admin_approve_exchange (example_db (example_exchange Active True True False) [])
            (example_request 3 POST) 7 60) =
     (example_db (example_exchange Active True True False) [])
       \<lparr>exchanges := (exchanges (example_db (example_exchange Active True True False) []))(7 \<mapsto>
           (example_exchange Active True True False)
             \<lparr>admin_approved := True, admin_approved_date := Some 60,
              status := Completed, last_updated := 60\<rparr>)\<rparr>
   \<and> map fst (notices (admin_approve_exchange
                         (example_db (example_exchange Active True True False) [])
                         (example_request 3 POST) 7 60)) = [Success]
   \<and> store (admin_approve_exchange (example_db (example_exchange Active True False False) [])
              (example_request 3 POST) 7 60) =
       example_db (example_exchange Active True False False) []
   \<and> map fst (notices (admin_approve_exchange
                         (example_db (example_exchange Active True False False) [])
                         (example_request 3 POST) 7 60)) = [Error]
   \<and> store (admin_approve_exchange (example_db (example_exchange Completed True True True) [])
              (example_request 3 POST) 7 60) =
       example_db (example_exchange Completed True True True) []
   \<and> map fst (notices (admin_approve_exchange
                         (example_db (example_exchange Completed True True True) [])
                         (example_request 3 POST) 7 60)) = [Info]"
proof -
  have ready: "user1_completed (example_exchange Active True True False)
       \<and> user2_completed (example_exchange Active True True False)
       \<and> \<not> admin_approved (example_exchange Active True True False)"
    by (simp add: example_exchange_def)
  have partial: "\<not> (user1_completed (example_exchange Active True False False)
       \<and> user2_completed (example_exchange Active True False False))"
    by (simp add: example_exchange_def)
  have approved: "exchange_inv (example_exchange Completed True True True)
       \<and> admin_approved (example_exchange Completed True True True)"
    by (simp add: example_exchange_def exchange_inv_def)
  from ready partial approved
    admin_approve_exchange_cases[OF example_staff example_post example_row,
      of "example_exchange Active True True False" "[]" 60]
    admin_approve_exchange_cases[OF example_staff example_post example_row,
      of "example_exchange Active True False False" "[]" 60]
    admin_approve_exchange_cases[OF example_staff example_post example_row,
      of "example_exchange Completed True True True" "[]" 60]
  show ?thesis by blast
qed

subsection \<open>The bulk action \<open>approve_exchanges\<close>\<close>

text \<open>
  The bulk action stores the same approved row for every selected exchange that has both
  completion flags set and is not approved, and leaves every other row as it is. It
  queues no notice per exchange, only the count.
\<close>

lemma approve_loop_rows:
  "distinct (map fst rows) \<Longrightarrow>
   snd (approve_loop rows now (n, tbl)) i =
     (case map_of rows i of
        None \<Rightarrow> tbl i
      | Some x \<Rightarrow>
          if both_users_completed x \<and> \<not> admin_approved x
          then Some (x\<lparr>admin_approved := True, admin_approved_date := Some now,
                       status := Completed, last_updated := now\<rparr>)
          else tbl i)"
proof (induction rows arbitrary: n tbl)
  case Nil
  then show ?case by simp
next
  case (Cons row rows)
  obtain j x where row: "row = (j, x)" by (cases row)
  from Cons.prems row have d: "distinct (map fst rows)" and fresh: "map_of rows j = None"
    by (auto simp: map_of_eq_None_iff)
  show ?case
    using Cons.IH[OF d] fresh row
    by (auto simp: save_exchange_def split: option.splits)
qed

lemma queryset_distinct: "distinct (map fst (queryset selected tbl))"
proof -
  have "map fst (List.map_filter (\<lambda>i. map_option (Pair i) (tbl i)) xs)
          = filter (\<lambda>i. tbl i \<noteq> None) xs" for xs
    by (induction xs) (auto simp: List.map_filter_def)
  from this[of "remdups selected"] show ?thesis
    by (simp add: queryset_def)
qed

lemma map_of_queryset:
  "map_of (queryset selected tbl) i = (if i \<in> set selected then tbl i else None)"
proof -
  have "map_of (List.map_filter (\<lambda>i. map_option (Pair i) (tbl i)) xs) i
          = (if i \<in> set xs then tbl i else None)" for xs
    by (induction xs) (auto simp: List.map_filter_def)
  from this[of "remdups selected"] show ?thesis
    by (simp add: queryset_def)
qed

lemma approve_exchanges_rows:
  "exchanges (snd (approve_exchanges d selected now)) i =
     (case exchanges d i of
        None \<Rightarrow> None
      | Some x \<Rightarrow>
          if i \<in> set selected \<and> both_users_completed x \<and> \<not> admin_approved x
          then Some (x\<lparr>admin_approved := True, admin_approved_date := Some now,
                       status := Completed, last_updated := now\<rparr>)
          else Some x)"
proof -
  obtain n tbl where
    l: "approve_loop (queryset selected (exchanges d)) now (0, exchanges d) = (n, tbl)"
    by (cases "approve_loop (queryset selected (exchanges d)) now (0, exchanges d)")
  have "tbl i = snd (approve_loop (queryset selected (exchanges d)) now (0, exchanges d)) i"
    using l by simp
  also have "\<dots> = (case exchanges d i of
        None \<Rightarrow> None
      | Some x \<Rightarrow>
          if i \<in> set selected \<and> both_users_completed x \<and> \<not> admin_approved x
          then Some (x\<lparr>admin_approved := True, admin_approved_date := Some now,
                       status := Completed, last_updated := now\<rparr>)
          else Some x)"
    by (simp add: approve_loop_rows[OF queryset_distinct] map_of_queryset split: option.splits)
  finally show ?thesis using l by (simp add: approve_exchanges_def)
qed

section \<open>Marking an exchange complete\<close>

lemma mark_exchange_complete_status:
  "map_option status (exchanges (store (mark_exchange_complete d req i now)) j)
     = map_option status (exchanges d j)"
  unfolding mark_exchange_complete_def login_redirect_def not_found_def
    method_not_allowed_def save_exchange_def Let_def
  by (auto split: option.splits)

lemma mark_exchange_complete_again:
  assumes "request_user d req = Some (user, u)" and "req_method req = POST"
    and "exchanges d i = Some e" and "user1 e = user \<or> user2 e = user"
    and "status e = Active" and "my_completed user e"
  shows "store (mark_exchange_complete d req i now) = d"
    and "notices (mark_exchange_complete d req i now) =
           (Info, ''You've already marked this exchange as complete.'') # both_completed_notice e"
    and "resp (mark_exchange_complete d req i now) = Redirect ''exchanges'' []"
  using assms
  by (auto simp: mark_exchange_complete_def my_completed_def Let_def split: if_splits)

lemma both_completed_notice_info: "n \<in> set (both_completed_notice e) \<Longrightarrow> fst n = Info"
  by (auto simp: both_completed_notice_def split: if_splits)

text \<open>
  After any call by a participant of an active exchange, the exchange is still active,
  the caller is still a participant, and the caller's flag is set.
\<close>

lemma mark_exchange_complete_first:
  assumes "request_user d req = Some (user, u)" and "req_method req = POST"
    and "exchanges d i = Some e" and "user1 e = user \<or> user2 e = user"
    and "status e = Active"
  shows "\<exists>e'. exchanges (store (mark_exchange_complete d req i now)) i = Some e'
           \<and> (user1 e' = user \<or> user2 e' = user) \<and> status e' = Active \<and> my_completed user e'
           \<and> request_user (store (mark_exchange_complete d req i now)) req = Some (user, u)"
  using assms
  by (auto simp: mark_exchange_complete_def my_completed_def Let_def save_exchange_def
      request_user_def split: option.splits)

text \<open>
  C4. Let a participant of an active exchange post mark-complete. If the participant's
  flag is set already, the store is unchanged, the handler redirects, and every notice
  it queues (there is at least one) is informational. In any case a second call by the
  same participant after the first leaves the store as the first call left it and queues
  informational notices only. No call of mark-complete, by anyone on any exchange,
  changes the status of any stored exchange.
\<close>

theorem mark_exchange_complete_idempotent:
  "(request_user d req = Some (user, u) \<and> req_method req = POST \<and> exchanges d i = Some e
      \<and> (user1 e = user \<or> user2 e = user) \<and> status e = Active \<longrightarrow>
      (my_completed user e \<longrightarrow>
         store (mark_exchange_complete d req i now) = d
         \<and> notices (mark_exchange_complete d req i now) \<noteq> []
         \<and> (\<forall>n \<in> set (notices (mark_exchange_complete d req i now)). fst n = Info)
         \<and> resp (mark_exchange_complete d req i now) = Redirect ''exchanges'' [])
      \<and> store (mark_exchange_complete (store (mark_exchange_complete d req i now)) req i later)
          = store (mark_exchange_complete d req i now)
      \<and> (\<forall>n \<in> set (notices (mark_exchange_complete
                              (store (mark_exchange_complete d req i now)) req i later)).
            fst n = Info))
   \<and> (\<forall>j. map_option status (exchanges (store (mark_exchange_complete d req i now)) j)
            = map_option status (exchanges d j))"
proof -
  have third: "\<forall>j. map_option status (exchanges (store (mark_exchange_complete d req i now)) j)
            = map_option status (exchanges d j)"
    by (simp add: mark_exchange_complete_status)
  {
    assume a: "request_user d req = Some (user, u)" "req_method req = POST"
      "exchanges d i = Some e" "user1 e = user \<or> user2 e = user" "status e = Active"
    let ?r1 = "mark_exchange_complete d req i now"
    have one: "my_completed user e \<longrightarrow>
         store ?r1 = d \<and> notices ?r1 \<noteq> [] \<and> (\<forall>n \<in> set (notices ?r1). fst n = Info)
         \<and> resp ?r1 = Redirect ''exchanges'' []"
      using mark_exchange_complete_again[OF a] both_completed_notice_info by auto
    from mark_exchange_complete_first[OF a, of now] obtain e' where
      e': "exchanges (store ?r1) i = Some e'" "user1 e' = user \<or> user2 e' = user"
        "status e' = Active" "my_completed user e'" "request_user (store ?r1) req = Some (user, u)"
      by blast
    have two: "store (mark_exchange_complete (store ?r1) req i later) = store ?r1
       \<and> (\<forall>n \<in> set (notices (mark_exchange_complete (store ?r1) req i later)). fst n = Info)"
      using mark_exchange_complete_again[OF e'(5) a(2) e'(1) e'(2) e'(3) e'(4), of later]
        both_completed_notice_info by auto
    note one two
  }
  with third show ?thesis by blast
qed

lemma example_user_1:
  "request_user (example_db e ms) (example_request 1 m) = Some (1, alice)"
  by (simp add: request_user_def example_db_def example_request_def)

lemma example_user_2:
  "request_user (example_db e ms) (example_request 2 m) = Some (2, bob)"
  by (simp add: request_user_def example_db_def example_request_def)

text \<open>
  Alice has marked exchange 7 complete and posts again: nothing is stored. Bob then
  posts for the first time: both flags are set and the status is still active.
\<close>

theorem mark_exchange_complete_idempotent_witness:
  "store (mark_exchange_complete (example_db (example_exchange Active True False False) [])
            (example_request 1 POST) 7 60)
     = example_db (example_exchange Active True False False) []
   \<and> resp (mark_exchange_complete (example_db (example_exchange Active True False False) [])
            (example_request 1 POST) 7 60) = Redirect ''exchanges'' []
   \<and> map_option status
       (exchanges (store (mark_exchange_complete
                            (example_db (example_exchange Active True False False) [])
                            (example_request 2 POST) 7 60)) 7)
     = map_option status (exchanges (example_db (example_exchange Active True False False) []) 7)
   \<and> map_option both_users_completed
       (exchanges (store (mark_exchange_complete
                            (example_db (example_exchange Active True False False) [])
                            (example_request 2 POST) 7 60)) 7) = Some True"
proof -
  let ?e = "example_exchange Active True False False"
  have part: "user1 ?e = 1 \<or> user2 ?e = 1" and act: "status ?e = Active"
    and mine: "my_completed 1 ?e"
    by (simp_all add: example_exchange_def my_completed_def)
  have ev: "map_option both_users_completed
       (exchanges (store (mark_exchange_complete (example_db ?e []) (example_request 2 POST) 7 60))
          7) = Some True"
    by (simp add: mark_exchange_complete_def example_user_2 example_post example_row
        example_exchange_def save_exchange_def both_users_completed_def Let_def)
  from mark_exchange_complete_idempotent[of "example_db ?e []" "example_request 1 POST" 1 alice
      7 ?e 60 60] example_user_1 example_post example_row part act mine
  have a: "store (mark_exchange_complete (example_db ?e []) (example_request 1 POST) 7 60)
             = example_db ?e []
      \<and> resp (mark_exchange_complete (example_db ?e []) (example_request 1 POST) 7 60)
          = Redirect ''exchanges'' []"
    by blast
  from mark_exchange_complete_idempotent[of "example_db ?e []" "example_request 2 POST" 2 bob
      7 ?e 60 60]
  have b: "map_option status
       (exchanges (store (mark_exchange_complete (example_db ?e []) (example_request 2 POST) 7 60))
          7) = map_option status (exchanges (example_db ?e []) 7)"
    by blast
  from a b ev show ?thesis by blast
qed

section \<open>Potential matches\<close>

lemma first_by_pk_mem: "first_by_pk rows = Some r \<Longrightarrow> r \<in> set rows"
proof -
  assume "first_by_pk rows = Some r"
  then obtain rest where "sort_key us_id rows = r # rest"
    by (auto simp: first_by_pk_def split: list.splits)
  then have "r \<in> set (sort_key us_id rows)" by simp
  then show ?thesis by simp
qed

lemma their_seeking_row:
  assumes "their_seeking d user other = Some (r, s)"
  shows "r \<in> set (user_skills d) \<and> us_user r = other \<and> us_role r = Seek
         \<and> us_skill r \<in> set (my_offering_skills d user) \<and> skills d (us_skill r) = Some s"
proof -
  from assms obtain r' where
    f: "first_by_pk
          (filter (\<lambda>r. us_user r = other \<and> us_role r = Seek
                        \<and> us_skill r \<in> set (my_offering_skills d user)
                        \<and> skills d (us_skill r) \<noteq> None)
             (user_skills d)) = Some r'"
    and m: "map_option (Pair r') (skills d (us_skill r')) = Some (r, s)"
    by (auto simp: their_seeking_def split: option.splits)
  from m have "r' = r" "skills d (us_skill r) = Some s" by auto
  with first_by_pk_mem[OF f] show ?thesis by auto
qed

lemma potential_matches_row:
  assumes "(ms, ou, sk) \<in> set (potential_matches d user)"
  shows "ms \<in> set (user_skills d) \<and> us_skill ms \<in> set (my_seeking_skills d user)
         \<and> us_role ms = Offer \<and> us_user ms \<noteq> user
         \<and> users d (us_user ms) = Some ou \<and> skills d (us_skill ms) = Some sk"
proof -
  from assms have "(ms, ou, sk) \<in> set (List.map_filter (join_user_skill d)
          (filter (\<lambda>r. us_skill r \<in> set (my_seeking_skills d user) \<and> us_role r = Offer
                        \<and> us_user r \<noteq> user)
             (user_skills d)))"
    unfolding potential_matches_def by (rule in_set_takeD)
  then obtain r where "r \<in> set (user_skills d)" "us_skill r \<in> set (my_seeking_skills d user)"
     "us_role r = Offer" "us_user r \<noteq> user" "join_user_skill d r = Some (ms, ou, sk)"
    by (auto simp: List.map_filter_def)
  then show ?thesis
    by (auto simp: join_user_skill_def split: option.splits)
qed

text \<open>The loop adds reciprocal matches only.\<close>

lemma match_loop_reciprocal:
  "set rows \<subseteq> set (potential_matches d user) \<Longrightarrow>
   \<forall>m \<in> set matches. reciprocal d user m \<Longrightarrow>
   \<forall>m \<in> set (match_loop d user rows matches). reciprocal d user m"
proof (induction d user rows matches rule: match_loop.induct)
  case (1 d user matches)
  then show ?case by simp
next
  case (2 d user match_skill other_user offered rest matches)
  from "2.prems"(1) have row: "(match_skill, other_user, offered) \<in> set (potential_matches d user)"
    and rest: "set rest \<subseteq> set (potential_matches d user)" by auto
  show ?case
  proof (cases "their_seeking d user (us_user match_skill)")
    case None
    with 2 rest show ?thesis by simp
  next
    case (Some p)
    obtain wanted_row wanted where p: "p = (wanted_row, wanted)" by (cases p)
    let ?m = "\<lparr>m_initials = (if length (display_name other_user) \<ge> 2
                               then upper (take 2 (display_name other_user))
                               else upper (take 1 (display_name other_user))),
               m_name = display_name other_user, m_user_id = us_user match_skill,
               m_offer = skill_name offered, m_want = skill_name wanted\<rparr>"
    have "reciprocal d user ?m"
      using potential_matches_row[OF row] their_seeking_row[OF Some[unfolded p]]
      unfolding reciprocal_def by fastforce
    then have all: "\<forall>m \<in> set (matches @ [?m]). reciprocal d user m"
      using "2.prems"(2) by auto
    show ?thesis
    proof (cases "length (matches @ [?m]) \<ge> 3")
      case True
      then show ?thesis using all Some p by (simp add: Let_def)
    next
      case False
      have "\<forall>m \<in> set (match_loop d user rest (matches @ [?m])). reciprocal d user m"
        using "2.IH"(2)[OF Some p[symmetric] refl refl refl _ rest all] False by simp
      then show ?thesis using False Some p by (simp add: Let_def)
    qed
  qed
qed

text \<open>The loop stops at the third match.\<close>

lemma match_loop_length:
  "length matches \<le> 2 \<Longrightarrow> length (match_loop d user rows matches) \<le> 3"
proof (induction d user rows matches rule: match_loop.induct)
  case (1 d user matches)
  then show ?case by simp
next
  case (2 d user match_skill other_user offered rest matches)
  show ?case
  proof (cases "their_seeking d user (us_user match_skill)")
    case None
    with 2 show ?thesis by simp
  next
    case (Some p)
    obtain wanted_row wanted where p: "p = (wanted_row, wanted)" by (cases p)
    show ?thesis
    proof (cases "length matches = 2")
      case True
      then show ?thesis using Some p by (simp add: Let_def)
    next
      case False
      with "2.prems" have small: "length matches < 2" by simp
      then have "length (match_loop d user rest (matches @
         [\<lparr>m_initials = (if length (display_name other_user) \<ge> 2
                               then upper (take 2 (display_name other_user))
                               else upper (take 1 (display_name other_user))),
               m_name = display_name other_user, m_user_id = us_user match_skill,
               m_offer = skill_name offered, m_want = skill_name wanted\<rparr>])) \<le> 3"
        using "2.IH"(2)[OF Some p[symmetric] refl refl refl] by simp
      then show ?thesis using small Some p by (simp add: Let_def)
    qed
  qed
qed

text \<open>
  C5. Every match that the dashboard computes for a user is reciprocal: its counterpart
  is not the user, offers a skill the user seeks and seeks a skill the user offers. The
  list has at most 3 entries, and it is empty when the user seeks no skill or offers no
  skill.
\<close>

theorem dashboard_matches_reciprocal:
  "(\<forall>m \<in> set (dashboard_matches d user). reciprocal d user m)
   \<and> length (dashboard_matches d user) \<le> 3
   \<and> (my_seeking_skills d user = [] \<or> my_offering_skills d user = [] \<longrightarrow>
        dashboard_matches d user = [])"
  using match_loop_reciprocal[of "potential_matches d user" d user "[]"]
    match_loop_length[of "[]" d user "potential_matches d user"]
  by (auto simp: dashboard_matches_def)

text \<open>
  The end-to-end example: the dashboard of Alice shows exactly one match, naming Bob,
  offer Chess, want Guitar, and the match is reciprocal. Carol lists no skills and gets
  no match.
\<close>

theorem dashboard_matches_reciprocal_witness:
  "dashboard_matches (example_db (example_exchange Pending False False False) []) 1 =
     [\<lparr>m_initials = ''BO'', m_name = ''bob@example.org'', m_user_id = 2,
       m_offer = ''Chess'', m_want = ''Guitar''\<rparr>]
   \<and> reciprocal (example_db (example_exchange Pending False False False) []) 1
       \<lparr>m_initials = ''BO'', m_name = ''bob@example.org'', m_user_id = 2,
        m_offer = ''Chess'', m_want = ''Guitar''\<rparr>
   \<and> my_seeking_skills (example_db (example_exchange Pending False False False) []) 3 = []
   \<and> dashboard_matches (example_db (example_exchange Pending False False False) []) 3 = []"
proof -
  let ?d = "example_db (example_exchange Pending False False False) []"
  let ?m = "\<lparr>m_initials = ''BO'', m_name = ''bob@example.org'', m_user_id = 2,
             m_offer = ''Chess'', m_want = ''Guitar''\<rparr>"
  have ev: "dashboard_matches ?d 1 = [?m]"
    by code_simp
  have none: "my_seeking_skills ?d 3 = []"
    by code_simp
  from dashboard_matches_reciprocal[of ?d 1] ev have a: "reciprocal ?d 1 ?m"
    by simp
  from dashboard_matches_reciprocal[of ?d 3] none have b: "dashboard_matches ?d 3 = []"
    by blast
  from ev a none b show ?thesis by blast
qed

section \<open>Accepting a proposal\<close>

text \<open>
  C6, as the code has it. When the caller is user2 of the stored exchange and its status
  is pending, accept stores the row with status active (the save stamps last_updated) and
  changes nothing else; when the row has a skill1 it redirects to the dashboard with a
  success notice. For an authenticated caller and any exchange id that does not resolve
  to a pending exchange with the caller as user2, the answer is the not-found response
  (HTTP 404), with no notice and the store unchanged. An anonymous caller changes
  nothing.
\<close>

theorem accept_exchange_cases:
  "(request_user d req = Some (me, u) \<and> exchanges d i = Some e \<and> user2 e = me
      \<and> status e = Pending \<longrightarrow>
      store (accept_exchange d req i now) =
        d\<lparr>exchanges := (exchanges d)(i \<mapsto> e\<lparr>status := Active, last_updated := now\<rparr>)\<rparr>
      \<and> (skill1 e \<noteq> None \<longrightarrow>
           resp (accept_exchange d req i now) = Redirect ''dashboard'' []
           \<and> map fst (notices (accept_exchange d req i now)) = [Success]))
   \<and> (request_user d req = Some (me, u)
      \<and> \<not> (\<exists>e. exchanges d i = Some e \<and> user2 e = me \<and> status e = Pending) \<longrightarrow>
      accept_exchange d req i now = \<lparr>resp = Http404, notices = [], store = d\<rparr>)
   \<and> (request_user d req = None \<longrightarrow> store (accept_exchange d req i now) = d)"
  by (auto simp: accept_exchange_def save_exchange_def not_found_def login_redirect_def
      server_error_def Let_def split: option.splits)

text \<open>
  Bob accepts the pending exchange 7 that Alice proposed to him; Alice, who is user1,
  cannot accept it herself.
\<close>

theorem accept_exchange_cases_witness:
  "store (accept_exchange (example_db (example_exchange Pending False False False) [])
            (example_request 2 GET) 7 60) =
     (example_db (example_exchange Pending False False False) [])
       \<lparr>exchanges := (exchanges (example_db (example_exchange Pending False False False) []))(7 \<mapsto>
           (example_exchange Pending False False False)\<lparr>status := Active, last_updated := 60\<rparr>)\<rparr>
   \<and> resp (accept_exchange (example_db (example_exchange Pending False False False) [])
            (example_request 2 GET) 7 60) = Redirect ''dashboard'' []
   \<and> accept_exchange (example_db (example_exchange Pending False False False) [])
       (example_request 1 GET) 7 60 =
       \<lparr>resp = Http404, notices = [],
        store = example_db (example_exchange Pending False False False) []\<rparr>"
proof -
  let ?e = "example_exchange Pending False False False"
  have h: "user2 ?e = 2" "status ?e = Pending" "skill1 ?e \<noteq> None"
    by (simp_all add: example_exchange_def)
  have n: "\<not> (\<exists>e. exchanges (example_db ?e []) 7 = Some e \<and> user2 e = 1 \<and> status e = Pending)"
    by (simp add: example_row example_exchange_def)
  from accept_exchange_cases[of "example_db ?e []" "example_request 2 GET" 2 bob 7 ?e 60]
    example_user_2 example_row h
  have a: "store (accept_exchange (example_db ?e []) (example_request 2 GET) 7 60) =
     (example_db ?e [])\<lparr>exchanges := (exchanges (example_db ?e []))(7 \<mapsto>
           ?e\<lparr>status := Active, last_updated := 60\<rparr>)\<rparr>
     \<and> resp (accept_exchange (example_db ?e []) (example_request 2 GET) 7 60)
         = Redirect ''dashboard'' []"
    by blast
  from accept_exchange_cases[of "example_db ?e []" "example_request 1 GET" 1 alice 7 ?e 60]
    example_user_1 n
  have b: "accept_exchange (example_db ?e []) (example_request 1 GET) 7 60 =
       \<lparr>resp = Http404, notices = [], store = example_db ?e []\<rparr>"
    by blast
  from a b show ?thesis by blast
qed

text \<open>
  As the specification states it, the property fails: Bob accepts exchange 8, which does not
  exist. The answer is the not-found response, not a redirect.
\<close>

theorem accept_exchange_not_found_counterexample:
  "resp (accept_exchange (example_db (example_exchange Pending False False False) [])
           (example_request 2 GET) 8 60) = Http404
   \<and> resp (accept_exchange (example_db (example_exchange Pending False False False) [])
           (example_request 2 GET) 8 60) \<noteq> Redirect ''dashboard'' []"
  by (simp add: accept_exchange_def example_user_2 example_no_row not_found_def)

section \<open>The conversation list\<close>

lemma conversations_loop_unread:
  "c \<in> set (conversations_loop d cur uids) \<Longrightarrow>
   unread_count c = unread_from d cur (fst (conv_user c))"
proof (induction uids)
  case Nil
  then show ?case by simp
next
  case (Cons uid rest)
  show ?case
  proof (cases "(users d |` conversation_user_ids d cur) uid")
    case None
    with Cons show ?thesis by simp
  next
    case (Some other_user)
    then have mem: "uid \<in> conversation_user_ids d cur"
      by (auto simp: restrict_map_def split: if_splits)
    let ?Q = "\<lambda>m. sender m = uid \<and> receiver m = cur \<and> \<not> is_read m"
    let ?P2 = "\<lambda>m. (sender m = cur \<and> receiver m = uid) \<or> (sender m = uid \<and> receiver m = cur)"
    let ?P1 = "\<lambda>m. (sender m = cur \<and> receiver m \<in> conversation_user_ids d cur)
                     \<or> (sender m \<in> conversation_user_ids d cur \<and> receiver m = cur)"
    have "length (filter ?Q (filter ?P2 (all_messages d cur)))
            = length (filter (\<lambda>m. ?Q m \<and> ?P2 m \<and> ?P1 m) (messages d))"
      unfolding all_messages_def
      by (simp add: filter_sort conj_commute conj_left_commute)
    also have "(filter (\<lambda>m. ?Q m \<and> ?P2 m \<and> ?P1 m) (messages d)) = filter ?Q (messages d)"
      using mem by (intro filter_cong) auto
    finally have head:
      "length (filter ?Q (filter ?P2 (all_messages d cur))) = unread_from d cur uid"
      by (simp add: unread_from_def)
    from Cons.prems Some consider
      (first) "c = \<lparr>conv_user = (uid, other_user),
              last_message = py_max timestamp (filter ?P2 (all_messages d cur)),
              unread_count = length (filter ?Q (filter ?P2 (all_messages d cur)))\<rparr>"
      | (later) "c \<in> set (conversations_loop d cur rest)"
      by (auto simp: Let_def)
    then show ?thesis
    proof cases
      case first
      then show ?thesis using head by simp
    next
      case later
      then show ?thesis by (rule Cons.IH)
    qed
  qed
qed

lemma sort_reverse_sorted:
  "sorted_wrt (\<lambda>a b. key a \<ge> key b) (sort_reverse key xs)"
proof -
  have "sorted (map key (sort_key key (rev xs)))"
    by (rule sorted_sort_key)
  then have "sorted_wrt (\<lambda>x y. key x \<le> key y) (sort_key key (rev xs))"
    by (simp only: sorted_map)
  then show ?thesis
    by (simp only: sort_reverse_def sorted_wrt_rev)
qed

lemma set_sort_reverse: "set (sort_reverse key xs) = set xs"
  by (simp only: sort_reverse_def set_rev set_sort)

lemma foldl_max_latest:
  fixes key :: "'a \<Rightarrow> 'k::linorder"
  shows "foldl (\<lambda>best y. if key best < key y then y else best) x xs \<in> set (x # xs)
   \<and> (\<forall>y \<in> set (x # xs).
         key y \<le> key (foldl (\<lambda>best y. if key best < key y then y else best) x xs))"
proof (induction xs arbitrary: x)
  case Nil
  then show ?case by simp
next
  case (Cons z zs)
  let ?f = "\<lambda>best y. if key best < key y then y else best"
  from Cons.IH[of "?f x z"]
  have mem: "foldl ?f (?f x z) zs \<in> set (?f x z # zs)"
    and top: "\<forall>y \<in> set (?f x z # zs). key y \<le> key (foldl ?f (?f x z) zs)"
    by blast+
  have step: "key x \<le> key (?f x z)" "key z \<le> key (?f x z)"
    by auto
  from top have "key (?f x z) \<le> key (foldl ?f (?f x z) zs)"
    by simp
  with step have "key x \<le> key (foldl ?f (?f x z) zs)" "key z \<le> key (foldl ?f (?f x z) zs)"
    by (meson order_trans)+
  moreover from top have "\<forall>y \<in> set zs. key y \<le> key (foldl ?f (?f x z) zs)"
    by simp
  moreover from mem have "foldl ?f (?f x z) zs \<in> set (x # z # zs)"
    by (auto split: if_splits)
  ultimately show ?case by simp
qed

lemma py_max_latest:
  "xs \<noteq> [] \<Longrightarrow>
   \<exists>m. py_max key xs = Some m \<and> m \<in> set xs \<and> (\<forall>y \<in> set xs. key y \<le> key m)"
  using foldl_max_latest[of key] by (cases xs) auto

lemma conversations_loop_entry:
  "c \<in> set (conversations_loop d cur uids) \<Longrightarrow>
   fst (conv_user c) \<in> conversation_user_ids d cur
   \<and> last_message c =
       py_max timestamp (filter (between cur (fst (conv_user c))) (all_messages d cur))"
proof (induction uids)
  case Nil
  then show ?case by simp
next
  case (Cons uid rest)
  show ?case
  proof (cases "(users d |` conversation_user_ids d cur) uid")
    case None
    with Cons show ?thesis by simp
  next
    case (Some other_user)
    then have mem: "uid \<in> conversation_user_ids d cur"
      by (auto simp: restrict_map_def split: if_splits)
    from Cons.prems Some consider
      (first) "conv_user c = (uid, other_user)"
        "last_message c = py_max timestamp
           (filter (\<lambda>m. (sender m = cur \<and> receiver m = uid) \<or> (sender m = uid \<and> receiver m = cur))
              (all_messages d cur))"
      | (later) "c \<in> set (conversations_loop d cur rest)"
      by (auto simp: Let_def)
    then show ?thesis
    proof cases
      case first
      have "between cur uid = (\<lambda>m. (sender m = cur \<and> receiver m = uid)
                                  \<or> (sender m = uid \<and> receiver m = cur))"
        by (rule ext) (simp add: between_def)
      with first mem show ?thesis by simp
    next
      case later
      then show ?thesis by (rule Cons.IH)
    qed
  qed
qed

lemma set_pair_all_messages:
  "uid \<in> conversation_user_ids d cur \<Longrightarrow>
   set (filter (between cur uid) (all_messages d cur))
     = set (filter (between cur uid) (messages d))"
  by (auto simp: all_messages_def between_def)

lemma counterpart_has_message:
  "uid \<in> conversation_user_ids d cur \<Longrightarrow> filter (between cur uid) (messages d) \<noteq> []"
  by (auto simp: conversation_user_ids_def sent_to_ids_def received_from_ids_def between_def
      filter_empty_conv)

lemma latest_timestamp_eq:
  assumes "m \<in> set (filter (between viewer c) msgs)"
    and "\<forall>y \<in> set (filter (between viewer c) msgs). timestamp y \<le> timestamp m"
  shows "latest_timestamp msgs viewer c = Some (timestamp m)"
proof -
  from assms(1) obtain x xs where ne: "filter (between viewer c) msgs = x # xs"
    by (cases "filter (between viewer c) msgs") auto
  have "Max (set (map timestamp (x # xs))) = timestamp m"
  proof (rule Max_eqI)
    show "finite (set (map timestamp (x # xs)))" by simp
    show "timestamp m \<in> set (map timestamp (x # xs))"
      using assms(1) ne by auto
    show "\<And>y. y \<in> set (map timestamp (x # xs)) \<Longrightarrow> y \<le> timestamp m"
      using assms(2) ne by auto
  qed
  then show ?thesis by (simp add: latest_timestamp_def ne)
qed

text \<open>
  Every entry of the list carries the latest stored message of its pair, and its sort
  key is the key of the specification.
\<close>

lemma conversations_loop_latest:
  assumes "c \<in> set (conversations_loop d cur uids)"
  shows "\<exists>m \<in> set (messages d).
           last_message c = Some m \<and> between cur (fst (conv_user c)) m
           \<and> (\<forall>m' \<in> set (messages d).
                 between cur (fst (conv_user c)) m' \<longrightarrow> timestamp m' \<le> timestamp m)
           \<and> conversation_key c = spec_conversation_key (messages d) cur (conv_user c)"
proof -
  let ?uid = "fst (conv_user c)"
  from conversations_loop_entry[OF assms]
  have mem: "?uid \<in> conversation_user_ids d cur"
    and last: "last_message c = py_max timestamp (filter (between cur ?uid) (all_messages d cur))"
    by blast+
  have same: "set (filter (between cur ?uid) (all_messages d cur))
                = set (filter (between cur ?uid) (messages d))"
    using mem by (rule set_pair_all_messages)
  have "filter (between cur ?uid) (all_messages d cur) \<noteq> []"
    using counterpart_has_message[OF mem] same by (metis set_empty)
  from py_max_latest[OF this, of timestamp] last obtain m where
    m: "last_message c = Some m" "m \<in> set (filter (between cur ?uid) (all_messages d cur))"
      "\<forall>y \<in> set (filter (between cur ?uid) (all_messages d cur)). timestamp y \<le> timestamp m"
    by auto
  note m' = m(2,3)[unfolded same]
  have "conversation_key c = timestamp m"
    using m(1) by (simp add: conversation_key_def)
  also have "\<dots> = spec_conversation_key (messages d) cur (conv_user c)"
    using latest_timestamp_eq[OF m'] by (simp add: spec_conversation_key_def)
  finally have "conversation_key c = spec_conversation_key (messages d) cur (conv_user c)" .
  with m(1) m' show ?thesis by auto
qed

text \<open>
  C7. Whenever \<open>messages_view\<close> renders the page for a viewer, in whatever order the set
  of counterparts was walked, every entry of the conversation list reports as
  unread_count the number of messages stored before the request (so before the view
  marked the opened thread read) with sender = the entry's counterpart, receiver = the
  viewer and is_read = false. Every entry carries as last message a stored message
  between the viewer and the counterpart that no stored message between them is later
  than, and the list is in descending order of the latest-message timestamp of each
  pair. The sort is by the key that falls back to the counterpart's date_joined: any
  list of entries comes out of it in descending order of that key, and the key of an
  entry with no last message is the counterpart's date_joined. In the rendered list the
  fallback never applies, since every entry has a last message.
\<close>

theorem conversations_unread_and_order:
  "(request_user d req = Some (viewer, u)
      \<and> mv_context (messages_view d req user_id now uids) = Some ctx \<longrightarrow>
      (\<forall>c \<in> set (conversations ctx). unread_count c = unread_from d viewer (fst (conv_user c)))
      \<and> (\<forall>c \<in> set (conversations ctx). \<exists>m \<in> set (messages d).
             last_message c = Some m \<and> between viewer (fst (conv_user c)) m
             \<and> (\<forall>m' \<in> set (messages d).
                   between viewer (fst (conv_user c)) m' \<longrightarrow> timestamp m' \<le> timestamp m))
      \<and> sorted_wrt (\<lambda>a b. spec_conversation_key (messages d) viewer (conv_user a)
                            \<ge> spec_conversation_key (messages d) viewer (conv_user b))
            (conversations ctx))
   \<and> sorted_wrt (\<lambda>a b. conversation_key a \<ge> conversation_key b)
         (sort_reverse conversation_key xs)
   \<and> (last_message x = None \<longrightarrow> conversation_key x = date_joined (snd (conv_user x)))"
proof -
  {
    assume a: "request_user d req = Some (viewer, u)"
      "mv_context (messages_view d req user_id now uids) = Some ctx"
    then have c: "conversations ctx = conversations_of d viewer uids"
      by (auto simp: messages_view_def Let_def split: option.splits if_splits)
    have mem: "set (conversations ctx) = set (conversations_loop d viewer uids)"
      unfolding c conversations_of_def by (rule set_sort_reverse)
    have unread: "\<forall>c \<in> set (conversations ctx).
        unread_count c = unread_from d viewer (fst (conv_user c))"
      unfolding mem using conversations_loop_unread by blast
    have latest: "\<forall>c \<in> set (conversations ctx). \<exists>m \<in> set (messages d).
             last_message c = Some m \<and> between viewer (fst (conv_user c)) m
             \<and> (\<forall>m' \<in> set (messages d).
                   between viewer (fst (conv_user c)) m' \<longrightarrow> timestamp m' \<le> timestamp m)"
      unfolding mem using conversations_loop_latest by blast
    have key: "\<forall>c \<in> set (conversations ctx).
        conversation_key c = spec_conversation_key (messages d) viewer (conv_user c)"
      unfolding mem using conversations_loop_latest by blast
    have "sorted_wrt (\<lambda>a b. conversation_key a \<ge> conversation_key b) (conversations ctx)"
      unfolding c conversations_of_def by (rule sort_reverse_sorted)
    then have "sorted_wrt (\<lambda>a b. spec_conversation_key (messages d) viewer (conv_user a)
                            \<ge> spec_conversation_key (messages d) viewer (conv_user b))
            (conversations ctx)"
      by (rule sorted_wrt_mono_rel[rotated]) (simp add: key)
    note unread latest this
  }
  moreover have "sorted_wrt (\<lambda>a b. conversation_key a \<ge> conversation_key b)
         (sort_reverse conversation_key xs)"
    by (rule sort_reverse_sorted)
  moreover have "last_message x = None \<longrightarrow> conversation_key x = date_joined (snd (conv_user x))"
    by (simp add: conversation_key_def)
  ultimately show ?thesis by blast
qed

text \<open>The example store with two messages, evaluated.\<close>

lemma example_users:
  "users (example_db e ms) 1 = Some alice" "users (example_db e ms) 2 = Some bob"
  "users (example_db e ms) 3 = Some carol"
  by (simp_all add: example_db_def)

lemma example_stored_messages: "messages (example_db e ms) = ms"
  by (simp add: example_db_def)

lemma example_ids: "conversation_user_ids (example_db e example_messages) 1 = {2, 3}"
  by (auto simp: conversation_user_ids_def sent_to_ids_def received_from_ids_def
      example_stored_messages example_messages_def example_message_def)

lemma example_all_messages:
  "all_messages (example_db e example_messages) 1 =
     [example_message 2 1 (text_of ''hi'') 55 False, example_message 1 3 (text_of ''yo'') 56 False]"
  unfolding all_messages_def example_ids example_stored_messages
  by (simp add: example_messages_def example_message_def)

lemma example_loop:
  "conversations_loop (example_db e example_messages) 1 [2, 3] =
     [\<lparr>conv_user = (2, bob),
       last_message = Some (example_message 2 1 (text_of ''hi'') 55 False), unread_count = 1\<rparr>,
      \<lparr>conv_user = (3, carol),
       last_message = Some (example_message 1 3 (text_of ''yo'') 56 False), unread_count = 0\<rparr>]"
  by (simp add: example_ids example_all_messages example_users restrict_map_def
      example_message_def)

lemma example_conversations:
  "conversations_of (example_db e example_messages) 1 [2, 3] =
     [\<lparr>conv_user = (3, carol),
       last_message = Some (example_message 1 3 (text_of ''yo'') 56 False), unread_count = 0\<rparr>,
      \<lparr>conv_user = (2, bob),
       last_message = Some (example_message 2 1 (text_of ''hi'') 55 False), unread_count = 1\<rparr>]"
  unfolding conversations_of_def example_loop
  by (simp add: sort_reverse_def conversation_key_def example_message_def)

lemma example_thread:
  "thread 1 2 (mark_read 2 1 example_messages) = [example_message 2 1 (text_of ''hi'') 55 True]"
  by (simp add: thread_def mark_read_def example_messages_def example_message_def)

lemma example_get: "req_method (example_request uid GET) = GET"
  by (simp add: example_request_def)

lemma example_context:
  "mv_context (messages_view (example_db e example_messages) (example_request 1 GET)
                 (Some 2) 60 [2, 3]) =
     Some \<lparr>conversations =
             [\<lparr>conv_user = (3, carol),
               last_message = Some (example_message 1 3 (text_of ''yo'') 56 False), unread_count = 0\<rparr>,
              \<lparr>conv_user = (2, bob),
               last_message = Some (example_message 2 1 (text_of ''hi'') 55 False), unread_count = 1\<rparr>],
           selected_user = Some (2, bob),
           messages_list = [example_message 2 1 (text_of ''hi'') 55 True]\<rparr>"
  by (simp add: messages_view_def example_user_1 example_users example_stored_messages
      example_get example_conversations example_thread Let_def)

lemma example_after:
  "unread_from (mv_store (messages_view (example_db e example_messages) (example_request 1 GET)
                 (Some 2) 60 [2, 3])) 1 2 = 0"
proof -
  have "messages (mv_store (messages_view (example_db e example_messages)
                   (example_request 1 GET) (Some 2) 60 [2, 3]))
          = mark_read 2 1 example_messages"
    by (simp add: messages_view_def example_user_1 example_users example_stored_messages
        example_get Let_def)
  then show ?thesis
    by (simp add: unread_from_def mark_read_def example_messages_def example_message_def)
qed

text \<open>
  Alice has an unread message from Bob and has written to Carol later. She opens the
  thread with Bob: the list shows Carol first, then Bob with one unread message, the
  count of the store before the request; the store after the request has none. The sort,
  given an entry for Carol with no last message, puts it by her date_joined (5) after the
  entry for Bob (55).
\<close>

theorem conversations_unread_and_order_witness:
  "mv_context (messages_view (example_db (example_exchange Pending False False False)
                                example_messages)
                 (example_request 1 GET) (Some 2) 60 [2, 3]) =
     Some \<lparr>conversations =
             [\<lparr>conv_user = (3, carol),
               last_message = Some (example_message 1 3 (text_of ''yo'') 56 False),
               unread_count = 0\<rparr>,
              \<lparr>conv_user = (2, bob),
               last_message = Some (example_message 2 1 (text_of ''hi'') 55 False),
               unread_count = 1\<rparr>],
           selected_user = Some (2, bob),
           messages_list = [example_message 2 1 (text_of ''hi'') 55 True]\<rparr>
   \<and> unread_from (example_db (example_exchange Pending False False False) example_messages) 1 2
       = 1
   \<and> unread_from
       (mv_store (messages_view (example_db (example_exchange Pending False False False)
                                   example_messages)
                    (example_request 1 GET) (Some 2) 60 [2, 3])) 1 2 = 0
   \<and> sorted_wrt (\<lambda>a b. spec_conversation_key example_messages 1 (conv_user a)
                         \<ge> spec_conversation_key example_messages 1 (conv_user b))
       [\<lparr>conv_user = (3, carol),
         last_message = Some (example_message 1 3 (text_of ''yo'') 56 False),
         unread_count = 0\<rparr>,
        \<lparr>conv_user = (2, bob),
         last_message = Some (example_message 2 1 (text_of ''hi'') 55 False),
         unread_count = 1\<rparr>]
   \<and> spec_conversation_key example_messages 1 (3, carol) = 56
   \<and> spec_conversation_key example_messages 1 (2, bob) = 55
   \<and> conversation_key \<lparr>conv_user = (3, carol), last_message = None, unread_count = 0\<rparr>
       = date_joined (snd (conv_user
           \<lparr>conv_user = (3, carol), last_message = None, unread_count = 0\<rparr>))
   \<and> sort_reverse conversation_key
       [\<lparr>conv_user = (3, carol), last_message = None, unread_count = 0\<rparr>,
        \<lparr>conv_user = (2, bob),
         last_message = Some (example_message 2 1 (text_of ''hi'') 55 False),
         unread_count = 1\<rparr>]
       = [\<lparr>conv_user = (2, bob),
           last_message = Some (example_message 2 1 (text_of ''hi'') 55 False),
           unread_count = 1\<rparr>,
          \<lparr>conv_user = (3, carol), last_message = None, unread_count = 0\<rparr>]"
proof -
  let ?d = "example_db (example_exchange Pending False False False) example_messages"
  let ?c3 = "\<lparr>conv_user = (3, carol),
               last_message = Some (example_message 1 3 (text_of ''yo'') 56 False),
               unread_count = 0\<rparr>"
  let ?c2 = "\<lparr>conv_user = (2, bob),
               last_message = Some (example_message 2 1 (text_of ''hi'') 55 False),
               unread_count = 1\<rparr>"
  let ?cn = "\<lparr>conv_user = (3, carol), last_message = None, unread_count = 0\<rparr>"
  let ?ctx = "\<lparr>conversations = [?c3, ?c2], selected_user = Some (2, bob),
               messages_list = [example_message 2 1 (text_of ''hi'') 55 True]\<rparr>"
  have cs: "conversations ?ctx = [?c3, ?c2]"
    by simp
  have mem: "?c2 \<in> set [?c3, ?c2]"
    by simp
  have sel: "unread_count ?c2 = 1" "fst (conv_user ?c2) = 2"
    by simp_all
  have none: "last_message ?cn = None"
    by simp
  have ms: "messages ?d = example_messages"
    by (rule example_stored_messages)
  have k3: "spec_conversation_key example_messages 1 (3, carol) = 56"
    and k2: "spec_conversation_key example_messages 1 (2, bob) = 55"
    by (simp_all add: spec_conversation_key_def latest_timestamp_def between_def
        example_messages_def example_message_def)
  have srt: "sort_reverse conversation_key [?cn, ?c2] = [?c2, ?cn]"
    by (simp add: sort_reverse_def conversation_key_def example_message_def carol_def)
  note inst = conversations_unread_and_order[of ?d "example_request 1 GET" 1 alice "Some 2" 60
      "[2, 3]" ?ctx "[?cn, ?c2]" ?cn]
  from inst example_user_1 example_context
  have unread: "\<forall>c \<in> set (conversations ?ctx).
      unread_count c = unread_from ?d 1 (fst (conv_user c))"
    by blast
  from inst example_user_1 example_context
  have "sorted_wrt (\<lambda>a b. spec_conversation_key (messages ?d) 1 (conv_user a)
                         \<ge> spec_conversation_key (messages ?d) 1 (conv_user b))
          (conversations ?ctx)"
    by blast
  then have ordered: "sorted_wrt (\<lambda>a b. spec_conversation_key example_messages 1 (conv_user a)
                         \<ge> spec_conversation_key example_messages 1 (conv_user b)) [?c3, ?c2]"
    unfolding cs ms .
  from inst none
  have fallback: "conversation_key ?cn = date_joined (snd (conv_user ?cn))"
    by blast
  from unread have "\<forall>c \<in> set [?c3, ?c2]. unread_count c = unread_from ?d 1 (fst (conv_user c))"
    unfolding cs .
  from bspec[OF this mem] have "unread_count ?c2 = unread_from ?d 1 (fst (conv_user ?c2))" .
  then have before: "unread_from ?d 1 2 = 1"
    unfolding sel by (rule sym)
  from example_context[of "example_exchange Pending False False False"] before
    example_after[of "example_exchange Pending False False False"] ordered k3 k2 fallback srt
  show ?thesis by blast
qed

section \<open>Sending a message\<close>

lemma length_mark_read: "length (mark_read a b tbl) = length tbl"
  by (simp add: mark_read_def)

text \<open>
  C8, as the code has it. A viewer posts to the thread with a stored user. In both cases
  the view first marks the counterpart's unread messages to the viewer read. When the
  trimmed content is empty, no row is added, nothing else is stored, and the view renders
  the page with the same thread selected. When the trimmed content is not empty, exactly
  one row is added, with sender = viewer, receiver = counterpart, the trimmed content,
  the current time and is_read = false, and the view redirects to the same thread.
  Trimming is that of \<open>str.strip()\<close> on the code points of the content, Unicode
  whitespace included.
\<close>

theorem messages_view_send:
  assumes "request_user d req = Some (cur, u)" and "uid \<noteq> 0" and "users d uid = Some sel"
    and "req_method req = POST"
  shows "(form_content req = [] \<longrightarrow>
            mv_store (messages_view d req (Some uid) now uids)
              = d\<lparr>messages := mark_read uid cur (messages d)\<rparr>
            \<and> length (messages (mv_store (messages_view d req (Some uid) now uids)))
                = length (messages d)
            \<and> mv_resp (messages_view d req (Some uid) now uids) = Render ''messages.html''
            \<and> map_option selected_user (mv_context (messages_view d req (Some uid) now uids))
                = Some (Some (uid, sel)))
       \<and> (form_content req \<noteq> [] \<longrightarrow>
            mv_store (messages_view d req (Some uid) now uids)
              = d\<lparr>messages := mark_read uid cur (messages d) @
                   [\<lparr>sender = cur, receiver = uid, content = form_content req,
                     timestamp = now, is_read = False\<rparr>]\<rparr>
            \<and> mv_resp (messages_view d req (Some uid) now uids) = Redirect ''conversation'' [uid])"
  using assms
  by (simp add: messages_view_def Let_def length_mark_read)

lemma strip_examples:
  "strip (text_of ''  '') = []" "strip (text_of '' ok '') = text_of ''ok''"
  "strip [160, 32, 8195] = []"
  by (simp_all add: strip_def isspace_def text_of_def)

text \<open>
  Alice posts blanks, then a no-break space with a space and an em space (U+00A0, U+0020,
  U+2003), then \<open>'' ok ''\<close>, to her thread with Bob. The first two store no row.
\<close>

theorem messages_view_send_witness:
  "form_content ((example_request 1 POST)\<lparr>post_content := Some (text_of ''  '')\<rparr>) = []
   \<and> mv_store (messages_view (example_db (example_exchange Pending False False False)
                                 example_messages)
                 ((example_request 1 POST)\<lparr>post_content := Some (text_of ''  '')\<rparr>)
                 (Some 2) 60 [2, 3])
       = (example_db (example_exchange Pending False False False) example_messages)
           \<lparr>messages := mark_read 2 1 example_messages\<rparr>
   \<and> mv_resp (messages_view (example_db (example_exchange Pending False False False)
                                 example_messages)
                 ((example_request 1 POST)\<lparr>post_content := Some (text_of ''  '')\<rparr>)
                 (Some 2) 60 [2, 3])
       = Render ''messages.html''
   \<and> form_content ((example_request 1 POST)\<lparr>post_content := Some [160, 32, 8195]\<rparr>) = []
   \<and> mv_store (messages_view (example_db (example_exchange Pending False False False)
                                 example_messages)
                 ((example_request 1 POST)\<lparr>post_content := Some [160, 32, 8195]\<rparr>)
                 (Some 2) 60 [2, 3])
       = (example_db (example_exchange Pending False False False) example_messages)
           \<lparr>messages := mark_read 2 1 example_messages\<rparr>
   \<and> form_content ((example_request 1 POST)\<lparr>post_content := Some (text_of '' ok '')\<rparr>)
       = text_of ''ok''
   \<and> mv_store (messages_view (example_db (example_exchange Pending False False False)
                                 example_messages)
                 ((example_request 1 POST)\<lparr>post_content := Some (text_of '' ok '')\<rparr>)
                 (Some 2) 60 [2, 3])
       = (example_db (example_exchange Pending False False False) example_messages)
           \<lparr>messages := mark_read 2 1 example_messages
                          @ [example_message 1 2 (text_of ''ok'') 60 False]\<rparr>
   \<and> mv_resp (messages_view (example_db (example_exchange Pending False False False)
                                 example_messages)
                 ((example_request 1 POST)\<lparr>post_content := Some (text_of '' ok '')\<rparr>)
                 (Some 2) 60 [2, 3])
       = Redirect ''conversation'' [2]"
proof -
  let ?d = "example_db (example_exchange Pending False False False) example_messages"
  let ?blank = "(example_request 1 POST)\<lparr>post_content := Some (text_of ''  '')\<rparr>"
  let ?nbsp = "(example_request 1 POST)\<lparr>post_content := Some [160, 32, 8195]\<rparr>"
  let ?ok = "(example_request 1 POST)\<lparr>post_content := Some (text_of '' ok '')\<rparr>"
  have u1: "request_user ?d ?blank = Some (1, alice)"
    and u2: "request_user ?d ?ok = Some (1, alice)"
    and u3: "request_user ?d ?nbsp = Some (1, alice)"
    by (simp_all add: request_user_def example_db_def example_request_def)
  have p1: "req_method ?blank = POST" and p2: "req_method ?ok = POST"
    and p3: "req_method ?nbsp = POST"
    by (simp_all add: example_request_def)
  have sel: "users ?d 2 = Some bob" and ms: "messages ?d = example_messages"
    by (simp_all add: example_db_def)
  have nz: "(2::int) \<noteq> 0" by simp
  have c1: "form_content ?blank = []" and c2: "form_content ?ok = text_of ''ok''"
    and c3: "form_content ?nbsp = []"
    by (simp_all add: form_content_def strip_examples)
  have new: "\<lparr>sender = 1, receiver = 2, content = text_of ''ok'', timestamp = 60,
               is_read = False\<rparr> = example_message 1 2 (text_of ''ok'') 60 False"
    by (simp add: example_message_def)
  from messages_view_send[OF u1 nz sel p1, of 60 "[2, 3]"] c1
  have a: "mv_store (messages_view ?d ?blank (Some 2) 60 [2, 3])
             = ?d\<lparr>messages := mark_read 2 1 example_messages\<rparr>
       \<and> mv_resp (messages_view ?d ?blank (Some 2) 60 [2, 3]) = Render ''messages.html''"
    by (simp add: ms)
  from messages_view_send[OF u3 nz sel p3, of 60 "[2, 3]"] c3
  have n: "mv_store (messages_view ?d ?nbsp (Some 2) 60 [2, 3])
             = ?d\<lparr>messages := mark_read 2 1 example_messages\<rparr>"
    by (simp add: ms)
  have ne: "text_of ''ok'' \<noteq> []"
    by (simp add: text_of_def)
  from messages_view_send[OF u2 nz sel p2, of 60 "[2, 3]"] c2 ne
  have b: "mv_store (messages_view ?d ?ok (Some 2) 60 [2, 3])
             = ?d\<lparr>messages := mark_read 2 1 example_messages
                             @ [example_message 1 2 (text_of ''ok'') 60 False]\<rparr>
       \<and> mv_resp (messages_view ?d ?ok (Some 2) 60 [2, 3]) = Redirect ''conversation'' [2]"
    by (simp add: ms new)
  from a n b c1 c2 c3 show ?thesis by blast
qed

text \<open>
  As the specification states it, the property fails: Bob's message to Alice is unread, and
  Alice posts blanks to the thread. No row is added, but the stored messages are not the
  ones before the request: Bob's message is now read.
\<close>

theorem messages_view_blank_counterexample:
  "form_content ((example_request 1 POST)\<lparr>post_content := Some (text_of ''  '')\<rparr>) = []
   \<and> messages (mv_store (messages_view
                           (example_db (example_exchange Pending False False False)
                              example_messages)
                           ((example_request 1 POST)\<lparr>post_content := Some (text_of ''  '')\<rparr>)
                           (Some 2) 60 [2, 3]))
       = [example_message 2 1 (text_of ''hi'') 55 True,
          example_message 1 3 (text_of ''yo'') 56 False]
   \<and> messages (example_db (example_exchange Pending False False False) example_messages)
       = [example_message 2 1 (text_of ''hi'') 55 False,
          example_message 1 3 (text_of ''yo'') 56 False]
   \<and> example_message 2 1 (text_of ''hi'') 55 True
       \<noteq> example_message 2 1 (text_of ''hi'') 55 False"
proof -
  let ?d = "example_db (example_exchange Pending False False False) example_messages"
  let ?blank = "(example_request 1 POST)\<lparr>post_content := Some (text_of ''  '')\<rparr>"
  have u: "request_user ?d ?blank = Some (1, alice)"
    by (simp add: request_user_def example_db_def example_request_def)
  have p: "req_method ?blank = POST"
    by (simp add: example_request_def)
  have c: "form_content ?blank = []"
    by (simp add: form_content_def strip_examples)
  have before: "messages ?d = [example_message 2 1 (text_of ''hi'') 55 False,
          example_message 1 3 (text_of ''yo'') 56 False]"
    by (simp add: example_stored_messages example_messages_def)
  have "messages (mv_store (messages_view ?d ?blank (Some 2) 60 [2, 3]))
          = mark_read 2 1 (messages ?d)"
    by (simp add: messages_view_def u p c example_users Let_def)
  also have "\<dots> = [example_message 2 1 (text_of ''hi'') 55 True,
          example_message 1 3 (text_of ''yo'') 56 False]"
    unfolding before by (simp add: mark_read_def example_message_def)
  finally have after: "messages (mv_store (messages_view ?d ?blank (Some 2) 60 [2, 3]))
          = [example_message 2 1 (text_of ''hi'') 55 True,
             example_message 1 3 (text_of ''yo'') 56 False]" .
  have differ: "example_message 2 1 (text_of ''hi'') 55 True
                  \<noteq> example_message 2 1 (text_of ''hi'') 55 False"
    by (simp add: example_message_def)
  from c after before differ show ?thesis by blast
qed

section \<open>Toggling the staff flag\<close>

text \<open>
  C9. A staff user posts toggle-staff for a stored user. For a target other than the
  caller, the target's row gets is_staff negated and is_superuser equal to the new
  is_staff; nothing else in the store changes. For the caller's own row the store is
  unchanged and the handler queues an error notice.
\<close>

theorem admin_toggle_staff_cases:
  assumes "staff_member d req = Some (me, m)" and "req_method req = POST"
    and "users d uid = Some t"
  shows "(uid \<noteq> me \<longrightarrow>
            store (admin_toggle_staff d req uid) =
              d\<lparr>users := (users d)(uid \<mapsto>
                   t\<lparr>is_staff := \<not> is_staff t, is_superuser := \<not> is_staff t\<rparr>)\<rparr>)
       \<and> (uid = me \<longrightarrow>
            store (admin_toggle_staff d req uid) = d
            \<and> map fst (notices (admin_toggle_staff d req uid)) = [Error])"
  using assms by (auto simp: admin_toggle_staff_def Let_def)

text \<open>
  Carol makes Bob staff, and with it a superuser; on her own row she changes nothing.
\<close>

theorem admin_toggle_staff_cases_witness:
  "store (admin_toggle_staff (example_db (example_exchange Pending False False False) [])
            (example_request 3 POST) 2) =
     (example_db (example_exchange Pending False False False) [])
       \<lparr>users := (users (example_db (example_exchange Pending False False False) []))(2 \<mapsto>
           bob\<lparr>is_staff := \<not> is_staff bob, is_superuser := \<not> is_staff bob\<rparr>)\<rparr>
   \<and> \<not> is_staff bob
   \<and> store (admin_toggle_staff (example_db (example_exchange Pending False False False) [])
              (example_request 3 POST) 3) =
       example_db (example_exchange Pending False False False) []"
proof -
  let ?d = "example_db (example_exchange Pending False False False) []"
  have u2: "users ?d 2 = Some bob" and u3: "users ?d 3 = Some carol"
    by (simp_all add: example_db_def)
  have ne: "(2::int) \<noteq> 3" by simp
  have nb: "\<not> is_staff bob" by (simp add: bob_def)
  from admin_toggle_staff_cases[OF example_staff example_post u2] ne
    admin_toggle_staff_cases[OF example_staff example_post u3] nb
  show ?thesis by blast
qed

section \<open>Proposing an exchange\<close>

text \<open>
  C10. When the offered UserSkill that the proposal names belongs to the proposer, the
  handler queues the error notice, redirects to the marketplace and leaves the store
  unchanged. Every exchange row that the propose handler stores, new or changed, has
  user1 different from user2.
\<close>

theorem propose_exchange_view_not_self:
  "(request_user d req = Some (me, u)
      \<and> find (\<lambda>r. us_id r = k \<and> us_role r = Offer) (user_skills d) = Some r
      \<and> us_user r = me \<longrightarrow>
      propose_exchange_view d req k new_pk now =
        \<lparr>resp = Redirect ''marketplace'' [],
         notices = [(Error, ''You cannot propose an exchange with yourself!'')],
         store = d\<rparr>)
   \<and> (\<forall>j e. exchanges (store (propose_exchange_view d req k new_pk now)) j = Some e
            \<and> exchanges d j \<noteq> Some e \<longrightarrow> user1 e \<noteq> user2 e)"
  by (auto simp: propose_exchange_view_def create_exchange_def not_found_def login_redirect_def
      server_error_def split: option.splits pk_input.splits if_splits)

text \<open>
  Alice proposes against her own Guitar offer (UserSkill 1): refused. Alice proposes her
  Guitar against Bob's Chess offer (UserSkill 3): the row stored under the new key 8 has
  Alice as user1 and Bob as user2.
\<close>

theorem propose_exchange_view_not_self_witness:
  "propose_exchange_view (example_db (example_exchange Pending False False False) [])
     (example_request 1 POST) 1 8 60 =
     \<lparr>resp = Redirect ''marketplace'' [],
      notices = [(Error, ''You cannot propose an exchange with yourself!'')],
      store = example_db (example_exchange Pending False False False) []\<rparr>
   \<and> exchanges (store (propose_exchange_view
                          (example_db (example_exchange Pending False False False) [])
                          ((example_request 1 POST)\<lparr>post_my_skill := PkInput 1\<rparr>) 3 8 60)) 8
     = Some ((example_exchange Pending False False False)\<lparr>start_date := 60, last_updated := 60\<rparr>)
   \<and> user1 ((example_exchange Pending False False False)\<lparr>start_date := 60, last_updated := 60\<rparr>)
     \<noteq> user2 ((example_exchange Pending False False False)\<lparr>start_date := 60, last_updated := 60\<rparr>)"
proof -
  let ?d = "example_db (example_exchange Pending False False False) []"
  let ?req = "(example_request 1 POST)\<lparr>post_my_skill := PkInput 1\<rparr>"
  let ?new = "(example_exchange Pending False False False)\<lparr>start_date := 60, last_updated := 60\<rparr>"
  have own: "find (\<lambda>r. us_id r = 1 \<and> us_role r = Offer) (user_skills ?d)
               = Some (hd example_user_skills)"
    and mine: "us_user (hd example_user_skills) = 1"
    by (simp_all add: example_db_def example_user_skills_def)
  have ev: "exchanges (store (propose_exchange_view ?d ?req 3 8 60)) 8 = Some ?new"
    by (simp add: propose_exchange_view_def request_user_def example_db_def
        example_request_def example_user_skills_def create_exchange_def example_exchange_def)
  have fresh: "exchanges ?d 8 \<noteq> Some ?new"
    by (simp add: example_no_row)
  from propose_exchange_view_not_self[of ?d "example_request 1 POST" 1 alice 1
      "hd example_user_skills" 8 60] example_user_1 own mine
  have a: "propose_exchange_view ?d (example_request 1 POST) 1 8 60 =
     \<lparr>resp = Redirect ''marketplace'' [],
      notices = [(Error, ''You cannot propose an exchange with yourself!'')],
      store = ?d\<rparr>"
    by blast
  from propose_exchange_view_not_self[of ?d ?req 1 alice 3 "hd example_user_skills" 8 60]
    ev fresh
  have b: "user1 ?new \<noteq> user2 ?new"
    by blast
  from a b ev show ?thesis by blast
qed

end
